theory Spec2Isabelle
  imports Complex_Main "HOL-Library.Multiset"
begin

section \<open>Data model\<close>

text \<open>
  Modelled from the spec: the declarations of \<open>RoomState\<close> and \<open>Player\<close> (the
  storage interface) are not among the sources. The fields are those of the spec's data
  model, which are the ones that \<open>createRoom\<close> and \<open>joinRoom\<close> write. The fields
  \<open>id\<close> of both are written \<open>player_id\<close> and \<open>room_id\<close>; timestamps and
  versions are natural numbers; \<open>gameState\<close> is of the source type \<open>unknown\<close> and
  stays a type parameter, \<open>None\<close> when the field is absent.
\<close>

datatype room_status = Waiting | Playing | Ended

record player =
  player_id :: string
  name :: string
  isHost :: bool
  isReady :: bool
  isOnline :: bool
  lastSeen :: nat

record 'g room_state =
  room_id :: string
  version :: nat
  hostId :: string
  status :: room_status
  players :: "player list"
  gameState :: "'g option"
  createdAt :: nat
  updatedAt :: nat

text \<open>
  Modelled from the spec: the declarations of \<open>GameState\<close>, \<open>Player\<close>, \<open>Role\<close>
  and \<open>Phase\<close> (the game types) are not among the sources. The model has the fields
  that \<open>host-controller.ts\<close> and \<open>game-sync.ts\<close> read or write, the roles of the
  role table and the phases that \<open>processPhase\<close> dispatches on. A role can be missing
  (\<open>roles[index]\<close> past the end of the role list is \<open>undefined\<close>), so it is an
  option. The template strings \<open>player-<n>\<close> and \<open>ai-<n>\<close> are the constructors
  \<open>PlayerSeat n\<close> and \<open>AiSeat n\<close>; the display name of a simulated player, a fixed
  prefix followed by the seat number, is \<open>AiName n\<close>.
\<close>

datatype role = Werewolf | Seer | Witch | Hunter | Guard | Villager

datatype alignment = Village | Wolf

datatype phase =
    SETUP | NIGHT_START | NIGHT_GUARD_ACTION | NIGHT_WOLF_ACTION | NIGHT_WITCH_ACTION
  | NIGHT_SEER_ACTION | NIGHT_RESOLVE | DAY_START | DAY_BADGE_SIGNUP | DAY_SPEECH
  | DAY_BADGE_SPEECH | DAY_PK_SPEECH | DAY_VOTE | DAY_BADGE_ELECTION | DAY_RESOLVE | GAME_END

datatype difficulty = Easy | Normal | Hard

datatype game_pid = PlayerSeat nat | AiSeat nat

datatype display_name = HumanName string | AiName nat

record game_player =
  playerId :: game_pid
  seat :: nat
  displayName :: display_name
  alive :: bool
  role :: "role option"
  alignment :: alignment
  isHuman :: bool

record game_state =
  phase :: phase
  day :: nat
  game_players :: "game_player list"
  currentSpeakerSeat :: "nat option"
  winner :: "alignment option"
  difficulty :: difficulty

section \<open>SeatAssigner: seat mappings, roles and the initial game state\<close>

record seat_mapping =
  multiPlayerId :: string
  multiPlayerName :: string
  gameSeat :: nat
  gamePlayerId :: game_pid

text \<open>
  \<open>createSeatMappings\<close>: \<open>forEach\<close> over the players with their index, pushing a
  mapping while \<open>index < playerCount\<close>.
\<close>

definition createSeatMappings :: "player list \<Rightarrow> nat \<Rightarrow> seat_mapping list" where
  "createSeatMappings multiPlayers playerCount =
     map (\<lambda>(index, mp).
            \<lparr>multiPlayerId = player_id mp, multiPlayerName = name mp,
             gameSeat = index + 1, gamePlayerId = PlayerSeat (index + 1)\<rparr>)
         (filter (\<lambda>(index, mp). index < playerCount) (enumerate 0 multiPlayers))"

text \<open>The role table \<open>configs\<close> of \<open>assignRoles\<close>, a record keyed by player count.\<close>

definition configs6 :: "role list" where
  "configs6 = [Werewolf, Werewolf, Seer, Witch, Villager, Villager]"

definition configs :: "nat \<Rightarrow> role list option" where
  "configs n =
     (if n = 4 then Some [Werewolf, Seer, Villager, Villager]
      else if n = 5 then Some [Werewolf, Seer, Witch, Villager, Villager]
      else if n = 6 then Some configs6
      else if n = 7 then Some [Werewolf, Werewolf, Seer, Witch, Hunter, Villager, Villager]
      else if n = 8 then
        Some [Werewolf, Werewolf, Seer, Witch, Hunter, Guard, Villager, Villager]
      else if n = 9 then
        Some [Werewolf, Werewolf, Werewolf, Seer, Witch, Hunter, Guard, Villager, Villager]
      else if n = 10 then
        Some [Werewolf, Werewolf, Werewolf, Seer, Witch, Hunter, Guard,
              Villager, Villager, Villager]
      else if n = 11 then
        Some [Werewolf, Werewolf, Werewolf, Seer, Witch, Hunter, Guard,
              Villager, Villager, Villager, Villager]
      else if n = 12 then
        Some [Werewolf, Werewolf, Werewolf, Werewolf, Seer, Witch, Hunter, Guard,
              Villager, Villager, Villager, Villager]
      else None)"

text \<open>
  \<open>shuffleArray\<close> (Fisher-Yates). The random source is a parameter: \<open>rnd k\<close> is the
  value of the \<open>k\<close>-th call of \<open>Math.random()\<close>, a real in \<open>[0, 1)\<close>. The loop
  runs \<open>i\<close> from \<open>length - 1\<close> down to \<open>1\<close>, draws
  \<open>j = floor (random * (i + 1))\<close> and swaps the entries \<open>i\<close> and \<open>j\<close>; the
  destructuring assignment reads both entries before it writes.
\<close>

fun shuffle_loop :: "(nat \<Rightarrow> real) \<Rightarrow> nat \<Rightarrow> 'a list \<Rightarrow> 'a list" where
  "shuffle_loop rnd 0 result = result"
| "shuffle_loop rnd (Suc i') result =
     (let i = Suc i';
          j = nat \<lfloor>rnd (length result - 1 - i) * real (i + 1)\<rfloor>
      in shuffle_loop rnd i' (result[i := result ! j, j := result ! i]))"

definition shuffleArray :: "(nat \<Rightarrow> real) \<Rightarrow> 'a list \<Rightarrow> 'a list" where
  "shuffleArray rnd array = shuffle_loop rnd (length array - 1) array"

text \<open>The lookup \<open>configs[count] || configs[6]\<close>.\<close>

definition tableRow :: "nat \<Rightarrow> role list" where
  "tableRow n = (case configs n of Some r \<Rightarrow> r | None \<Rightarrow> configs6)"

definition assignRoles :: "(nat \<Rightarrow> real) \<Rightarrow> nat \<Rightarrow> role list" where
  "assignRoles rnd playerCount =
     (let count' = min (max playerCount 4) 12;
          roles = tableRow count'
      in shuffleArray rnd roles)"

definition getAlignment :: "role option \<Rightarrow> alignment" where
  "getAlignment r = (if r = Some Werewolf then Wolf else Village)"

text \<open>An array read: \<open>undefined\<close> past the end.\<close>

definition nth_opt :: "'a list \<Rightarrow> nat \<Rightarrow> 'a option" where
  "nth_opt xs i = (if i < length xs then Some (xs ! i) else None)"

text \<open>
  \<open>createMultiplayerGameState\<close>. The base state comes from \<open>createInitialGameState()\<close>
  of the game master and is a parameter; \<open>opt_difficulty\<close> is \<open>options?.difficulty\<close>.
  The seat mappings are mapped with their index to human players; the loop then adds
  simulated players for \<open>i\<close> from the number of human players up to \<open>totalSeats\<close>,
  with role \<open>roles[i] || 'Villager'\<close>.
\<close>

definition createMultiplayerGameState ::
  "(nat \<Rightarrow> real) \<Rightarrow> game_state \<Rightarrow> player list \<Rightarrow> seat_mapping list \<Rightarrow> difficulty option
     \<Rightarrow> game_state" where
  "createMultiplayerGameState rnd baseState multiPlayers seatMappings opt_difficulty =
     (let playerCount = length multiPlayers;
          roles = assignRoles rnd playerCount;
          humans = map (\<lambda>(index, mapping).
                     (let r = nth_opt roles index
                      in \<lparr>playerId = gamePlayerId mapping, seat = gameSeat mapping,
                          displayName = HumanName (multiPlayerName mapping), alive = True,
                          role = r, alignment = getAlignment r, isHuman = True\<rparr>))
                   (enumerate 0 seatMappings);
          totalSeats = max playerCount 6;
          ais = map (\<lambda>i.
                  (let seat = i + 1;
                       r = (case nth_opt roles i of Some x \<Rightarrow> x | None \<Rightarrow> Villager)
                   in \<lparr>playerId = AiSeat seat, seat = seat, displayName = AiName seat,
                       alive = True, role = Some r, alignment = getAlignment (Some r),
                       isHuman = False\<rparr>))
                [length humans ..< totalSeats]
      in baseState\<lparr>difficulty := (case opt_difficulty of Some d \<Rightarrow> d | None \<Rightarrow> Normal),
                    game_players := humans @ ais,
                    phase := SETUP\<rparr>)"

section \<open>HostController: the game-end check\<close>

text \<open>
  \<open>checkGameEnd\<close> reads \<open>this.currentGameState\<close> (possibly \<open>null\<close>), may assign its
  \<open>winner\<close> field, and returns a boolean. The model returns the boolean together with
  the controller's game state after the call.
\<close>

definition checkGameEnd :: "game_state option \<Rightarrow> bool \<times> game_state option" where
  "checkGameEnd currentGameState =
     (case currentGameState of
        None \<Rightarrow> (False, None)
      | Some gs \<Rightarrow>
          (let alivePlayers = filter alive (game_players gs);
               aliveWolves = filter (\<lambda>p. role p = Some Werewolf) alivePlayers;
               aliveVillagers = filter (\<lambda>p. role p \<noteq> Some Werewolf) alivePlayers
           in if length aliveWolves = 0 then (True, Some (gs\<lparr>winner := Some Village\<rparr>))
              else if length aliveWolves \<ge> length aliveVillagers
                then (True, Some (gs\<lparr>winner := Some Wolf\<rparr>))
              else (False, Some gs)))"

text \<open>The two head counts the specification speaks of, counted directly on the player list.\<close>

definition aliveWolfCount :: "game_state \<Rightarrow> nat" where
  "aliveWolfCount gs =
     length (filter (\<lambda>p. alive p \<and> role p = Some Werewolf) (game_players gs))"

definition aliveNonWolfCount :: "game_state \<Rightarrow> nat" where
  "aliveNonWolfCount gs =
     length (filter (\<lambda>p. alive p \<and> role p \<noteq> Some Werewolf) (game_players gs))"

text \<open>A game player with the given seat, role and life status, for concrete game states.\<close>

definition mkPlayer :: "nat \<Rightarrow> role \<Rightarrow> bool \<Rightarrow> game_player" where
  "mkPlayer s r a =
     \<lparr>playerId = PlayerSeat s, seat = s, displayName = HumanName '''', alive = a,
      role = Some r, alignment = (if r = Werewolf then Wolf else Village), isHuman = True\<rparr>"

definition mkGame :: "game_player list \<Rightarrow> game_state" where
  "mkGame ps =
     \<lparr>phase = NIGHT_RESOLVE, day = 1, game_players = ps, currentSpeakerSeat = None,
      winner = None, difficulty = Normal\<rparr>"

section \<open>Numbers\<close>

text \<open>
  A version is a JavaScript number holding a natural number, and \<open>version + 1\<close> is
  an addition of IEEE doubles: the exact sum rounded to the nearest number with a 53-bit
  significand, a tie going to the even significand (\<open>roundToDouble\<close>; overflow to
  infinity, beyond \<open>2 ^ 1024\<close>, is left aside). \<open>addOne\<close> is that addition. Below
  \<open>2 ^ 53\<close> it is the successor; at \<open>2 ^ 53\<close> it returns \<open>2 ^ 53\<close> again.
\<close>

fun bitLength :: "nat \<Rightarrow> nat" where
  "bitLength n = (if n = 0 then 0 else Suc (bitLength (n div 2)))"

declare bitLength.simps [simp del]

definition roundToDouble :: "nat \<Rightarrow> nat" where
  "roundToDouble n =
     (let u = 2 ^ (bitLength n - 53);
          q = n div u;
          r = n mod u
      in if 2 * r < u then q * u
         else if u < 2 * r then (q + 1) * u
         else if even q then q * u else (q + 1) * u)"

definition addOne :: "nat \<Rightarrow> nat" where
  "addOne v = roundToDouble (v + 1)"

section \<open>The room store\<close>

text \<open>
  The storage collaborator (\<open>IGameStorage\<close>) holds one object under the room key. A
  world is that object together with what the environment decides: whether each coming
  \<open>saveRoom\<close> succeeds (\<open>saveOutcomes\<close>, oldest first; a write succeeds once the list
  is used up) and the clock read by \<open>Date.now()\<close>. \<open>io_trace\<close> records every storage
  call and every awaited delay, in order. \<open>getRoom\<close> answers \<open>null\<close> for an absent
  object; a failed write leaves the object as it was.
\<close>

datatype io = Get | Put bool | Delete | Wait nat

record 'g world =
  stored :: "'g room_state option"
  saveOutcomes :: "bool list"
  now :: nat
  io_trace :: "io list"

definition getRoom :: "'g world \<Rightarrow> 'g room_state option \<times> 'g world" where
  "getRoom w = (stored w, w\<lparr>io_trace := io_trace w @ [Get]\<rparr>)"

definition saveRoom :: "'g room_state \<Rightarrow> 'g world \<Rightarrow> bool \<times> 'g world" where
  "saveRoom room w =
     (case saveOutcomes w of
        [] \<Rightarrow> (True, w\<lparr>stored := Some room, io_trace := io_trace w @ [Put True]\<rparr>)
      | ok # rest \<Rightarrow>
          (if ok
           then (True, w\<lparr>stored := Some room, saveOutcomes := rest,
                         io_trace := io_trace w @ [Put True]\<rparr>)
           else (False, w\<lparr>saveOutcomes := rest, io_trace := io_trace w @ [Put False]\<rparr>)))"

definition deleteRoom :: "'g world \<Rightarrow> bool \<times> 'g world" where
  "deleteRoom w = (True, w\<lparr>stored := None, io_trace := io_trace w @ [Delete]\<rparr>)"

text \<open>Awaiting \<open>setTimeout(resolve, ms)\<close>: the clock moves on by the delay.\<close>

definition sleep :: "nat \<Rightarrow> 'g world \<Rightarrow> 'g world" where
  "sleep ms w = w\<lparr>now := now w + ms, io_trace := io_trace w @ [Wait ms]\<rparr>"

section \<open>SyncManager\<close>

record sync_config =
  waitingInterval :: nat
  playingInterval :: nat
  idleInterval :: nat

definition DEFAULT_SYNC_CONFIG :: sync_config where
  "DEFAULT_SYNC_CONFIG =
     \<lparr>waitingInterval = 1000, playingInterval = 500, idleInterval = 3000\<rparr>"

text \<open>
  The fields of the class are \<open>config\<close>, \<open>intervalId\<close>, \<open>lastVersion\<close> and
  \<open>onUpdate\<close>. The only callback that the repository passes to \<open>setOnUpdate\<close> is
  the closure built in \<open>startSync\<close> of the manager, which is determined by the room it
  captures: \<open>onUpdate\<close> is \<open>None\<close> for \<open>null\<close> and \<open>Some room\<close> for that
  closure. \<open>notified\<close> lists the rooms that \<open>this.onUpdate?.(room)\<close> was reached
  with, oldest first. The part of the event loop that belongs to the instance is explicit:
  \<open>timers\<close> are the pending timeouts set by \<open>poll\<close> (handle, the status that the
  scheduled \<open>poll\<close> will receive, delay), \<open>awaiting\<close> are the calls of \<open>poll\<close>
  suspended at \<open>await getRoom\<close> (with their \<open>status\<close> argument), and
  \<open>nextHandle\<close> is the handle the next \<open>setTimeout\<close> returns (handles are truthy,
  so they start at 1).
\<close>

record 'g sync_manager =
  config :: sync_config
  intervalId :: "nat option"
  lastVersion :: nat
  onUpdate :: "'g room_state option"
  notified :: "'g room_state list"
  timers :: "(nat \<times> room_status \<times> nat) list"
  awaiting :: "room_status list"
  nextHandle :: nat

definition newSyncManager :: "'g sync_manager" where
  "newSyncManager =
     \<lparr>config = DEFAULT_SYNC_CONFIG, intervalId = None, lastVersion = 0, onUpdate = None,
      notified = [], timers = [], awaiting = [], nextHandle = 1\<rparr>"

definition setOnUpdate :: "'g room_state \<Rightarrow> 'g sync_manager \<Rightarrow> 'g sync_manager" where
  "setOnUpdate captured sm = sm\<lparr>onUpdate := Some captured\<rparr>"

definition notify :: "'g room_state \<Rightarrow> 'g sync_manager \<Rightarrow> 'g sync_manager" where
  "notify room sm = sm\<lparr>notified := notified sm @ [room]\<rparr>"

definition getInterval :: "'g sync_manager \<Rightarrow> room_status \<Rightarrow> nat" where
  "getInterval sm st =
     (case st of
        Waiting \<Rightarrow> waitingInterval (config sm)
      | Playing \<Rightarrow> playingInterval (config sm)
      | Ended \<Rightarrow> idleInterval (config sm))"

text \<open>\<open>stop\<close>: \<open>clearTimeout\<close> removes the timeout with the stored handle, if it is pending.\<close>

definition stop :: "'g sync_manager \<Rightarrow> 'g sync_manager" where
  "stop sm =
     (case intervalId sm of
        Some h \<Rightarrow> sm\<lparr>timers := filter (\<lambda>t. fst t \<noteq> h) (timers sm), intervalId := None\<rparr>
      | None \<Rightarrow> sm)"

text \<open>
  \<open>poll\<close> runs up to \<open>await this.storage.getRoom\<close> when it is called
  (\<open>poll_begin\<close>) and goes on when the fetch settles (\<open>poll_resume\<close>), with a room,
  with \<open>null\<close>, or with an exception, which the \<open>try\<close> catches. \<open>poll_body\<close> is
  the part inside the \<open>try\<close> after the fetch; it yields the instance and the local
  \<open>status\<close>.
\<close>

datatype 'g fetch = Fetched "'g room_state option" | Threw

definition poll_begin :: "room_status \<Rightarrow> 'g sync_manager \<Rightarrow> 'g sync_manager" where
  "poll_begin st sm = sm\<lparr>awaiting := awaiting sm @ [st]\<rparr>"

definition poll_body ::
  "room_status \<Rightarrow> 'g fetch \<Rightarrow> 'g sync_manager \<Rightarrow> 'g sync_manager \<times> room_status" where
  "poll_body st fetched sm =
     (case fetched of
        Fetched (Some room) \<Rightarrow>
          (if version room > lastVersion sm
           then (notify room (sm\<lparr>lastVersion := version room\<rparr>), status room)
           else (sm, st))
      | Fetched None \<Rightarrow> (sm, st)
      | Threw \<Rightarrow> (sm, st))"

definition poll_resume :: "'g fetch \<Rightarrow> 'g sync_manager \<Rightarrow> 'g sync_manager" where
  "poll_resume fetched sm =
     (case awaiting sm of
        [] \<Rightarrow> sm
      | st # rest \<Rightarrow>
          (case poll_body st fetched sm of
             (sm1, st1) \<Rightarrow>
               (let interval = getInterval sm1 st1;
                    h = nextHandle sm1
                in sm1\<lparr>awaiting := rest, intervalId := Some h,
                        timers := timers sm1 @ [(h, st1, interval)],
                        nextHandle := h + 1\<rparr>)))"

text \<open>A pending timeout fires: its callback calls \<open>poll\<close> with the status it captured.\<close>

definition timer_fires :: "nat \<Rightarrow> 'g sync_manager \<Rightarrow> 'g sync_manager" where
  "timer_fires h sm =
     (case find (\<lambda>t. fst t = h) (timers sm) of
        None \<Rightarrow> sm
      | Some (_, st, _) \<Rightarrow> poll_begin st (sm\<lparr>timers := filter (\<lambda>t. fst t \<noteq> h) (timers sm)\<rparr>))"

definition start :: "room_status \<Rightarrow> 'g sync_manager \<Rightarrow> 'g sync_manager" where
  "start initialStatus sm = poll_begin initialStatus (stop sm)"

text \<open>\<open>refresh\<close>, from the point where its fetch has settled.\<close>

definition refresh :: "'g fetch \<Rightarrow> 'g sync_manager \<Rightarrow> 'g room_state option \<times> 'g sync_manager" where
  "refresh fetched sm =
     (case fetched of
        Fetched (Some room) \<Rightarrow> (Some room, notify room (sm\<lparr>lastVersion := version room\<rparr>))
      | Fetched None \<Rightarrow> (None, sm)
      | Threw \<Rightarrow> (None, sm))"

text \<open>
  What can happen to an instance, one event at a time, and a run of events. A run whose
  events all satisfy \<open>is_poll_event\<close> is what polling alone does: no \<open>refresh\<close>.
\<close>

datatype 'g sync_event =
    EvStart room_status | EvStop | EvFetch "'g fetch" | EvTimer nat | EvRefresh "'g fetch"

fun sync_step :: "'g sync_manager \<Rightarrow> 'g sync_event \<Rightarrow> 'g sync_manager" where
  "sync_step sm (EvStart st) = start st sm"
| "sync_step sm EvStop = stop sm"
| "sync_step sm (EvFetch f) = poll_resume f sm"
| "sync_step sm (EvTimer h) = timer_fires h sm"
| "sync_step sm (EvRefresh f) = snd (refresh f sm)"

definition sync_run :: "'g sync_manager \<Rightarrow> 'g sync_event list \<Rightarrow> 'g sync_manager" where
  "sync_run sm evs = foldl sync_step sm evs"

fun is_poll_event :: "'g sync_event \<Rightarrow> bool" where
  "is_poll_event (EvRefresh f) = False"
| "is_poll_event e = True"

text \<open>
  \<open>updateWithLock\<close>, run without another client writing in between. The loop counter
  \<open>i\<close> is the first argument of \<open>updateWithLock_from\<close>.
\<close>

function updateWithLock_from ::
  "nat \<Rightarrow> ('g room_state \<Rightarrow> 'g room_state) \<Rightarrow> nat \<Rightarrow> 'g sync_manager \<Rightarrow> 'g world
     \<Rightarrow> 'g room_state option \<times> 'g sync_manager \<times> 'g world" where
  "updateWithLock_from i updater maxRetries sm w =
     (if i < maxRetries then
        (case getRoom w of
           (None, w1) \<Rightarrow> (None, sm, w1)
         | (Some room, w1) \<Rightarrow>
             (let updated =
                    updater (room\<lparr>version := addOne (version room), updatedAt := now w1\<rparr>)
              in case saveRoom updated w1 of
                   (True, w2) \<Rightarrow>
                     (Some updated, notify updated (sm\<lparr>lastVersion := version updated\<rparr>), w2)
                 | (False, w2) \<Rightarrow>
                     updateWithLock_from (i + 1) updater maxRetries sm
                       (sleep (100 * (i + 1)) w2)))
      else (None, sm, w))"
  by pat_completeness auto
termination
  by (relation "measure (\<lambda>(i, updater, maxRetries, sm, w). maxRetries - i)") auto

declare updateWithLock_from.simps [simp del]

definition updateWithLock ::
  "('g room_state \<Rightarrow> 'g room_state) \<Rightarrow> nat \<Rightarrow> 'g sync_manager \<Rightarrow> 'g world
     \<Rightarrow> 'g room_state option \<times> 'g sync_manager \<times> 'g world" where
  "updateWithLock updater maxRetries sm w = updateWithLock_from 0 updater maxRetries sm w"

section \<open>MultiplayerManager\<close>

text \<open>
  The messages passed to \<open>callbacks.onError\<close> are string literals of the source; each
  constructor stands for one of them: storage not initialised, player name required, room
  already exists, creating the room failed, game already started, joining failed, only
  the host can start the game, some players are not ready yet.
\<close>

datatype message =
    MsgNotInitialized | MsgNameRequired | MsgRoomExists | MsgCreateFailed
  | MsgGameStarted | MsgJoinFailed | MsgHostOnly | MsgNotAllReady

datatype 'g event =
    OnError message | OnRoomUpdate "'g room_state" | OnPlayerJoin player
  | OnPlayerLeave string | OnGameStart | OnGameEnd

text \<open>
  The fields of the class: \<open>storage\<close> (whether the storage object exists), \<open>roomId\<close>,
  \<open>sync\<close>, and \<open>playerId\<close>, \<open>playerName\<close>, \<open>isHost\<close>, written
  \<open>this_playerId\<close>, \<open>this_playerName\<close>, \<open>this_isHost\<close>. \<open>called\<close> lists every
  call made on \<open>this.callbacks\<close>, oldest first, by the methods of the manager and by
  the observers of its sync managers. \<open>orphans\<close> are the sync managers that
  \<open>this.sync\<close> no longer refers to: \<open>startSync\<close> replaces the current one without
  stopping it, and \<open>leaveRoom\<close> drops it after \<open>stop\<close>; their timeouts and
  pending fetches stay in the event loop, and their observers still call the callbacks.
\<close>

record 'g manager =
  storage :: bool
  roomId :: "string option"
  sync :: "'g sync_manager option"
  this_playerId :: string
  this_playerName :: "string option"
  this_isHost :: bool
  called :: "'g event list"
  orphans :: "'g sync_manager list"

definition emit :: "'g event \<Rightarrow> 'g manager \<Rightarrow> 'g manager" where
  "emit e m = m\<lparr>called := called m @ [e]\<rparr>"

text \<open>
  The observer built in \<open>startSync room\<close>, applied to a room it receives: it calls
  \<open>onRoomUpdate\<close> and, when the status differs from that of the captured room,
  \<open>onGameStart\<close> for playing and \<open>onGameEnd\<close> for ended. \<open>forwarded sm sm1\<close>
  are the calls that the observer of a sync manager made while it went from \<open>sm\<close> to
  \<open>sm1\<close>: one round of the observer for each room newly \<open>notified\<close>.
\<close>

definition observer :: "'g room_state \<Rightarrow> 'g room_state \<Rightarrow> 'g event list" where
  "observer room updatedRoom =
     OnRoomUpdate updatedRoom
       # (if status room \<noteq> status updatedRoom
          then (if status updatedRoom = Playing then [OnGameStart]
                else if status updatedRoom = Ended then [OnGameEnd]
                else [])
          else [])"

definition forwarded :: "'g sync_manager \<Rightarrow> 'g sync_manager \<Rightarrow> 'g event list" where
  "forwarded sm sm1 =
     (case onUpdate sm of
        None \<Rightarrow> []
      | Some room \<Rightarrow>
          concat (map (observer room) (drop (length (notified sm)) (notified sm1))))"

text \<open>The manager after one of its sync managers went from \<open>sm\<close> to \<open>sm1\<close>.\<close>

definition synced :: "'g sync_manager \<Rightarrow> 'g sync_manager \<Rightarrow> 'g manager \<Rightarrow> 'g manager" where
  "synced sm sm1 m = m\<lparr>sync := Some sm1, called := called m @ forwarded sm sm1\<rparr>"

definition getIsHost :: "'g manager \<Rightarrow> bool" where
  "getIsHost m = this_isHost m"

text \<open>\<open>isHostAtom\<close> of the store: \<open>room?.hostId === playerId\<close>.\<close>

definition isHostAtom :: "'g room_state option \<Rightarrow> string \<Rightarrow> bool" where
  "isHostAtom room playerId' = (case room of None \<Rightarrow> False | Some r \<Rightarrow> hostId r = playerId')"

text \<open>
  \<open>if (playerName) this.setPlayerName(playerName)\<close>: an absent or empty argument is
  falsy.
\<close>

definition takeName :: "string option \<Rightarrow> 'g manager \<Rightarrow> 'g manager" where
  "takeName playerNameArg m =
     (case playerNameArg of
        None \<Rightarrow> m
      | Some n \<Rightarrow> (if n = [] then m else m\<lparr>this_playerName := Some n\<rparr>))"

definition startSync :: "'g room_state \<Rightarrow> 'g manager \<Rightarrow> 'g manager" where
  "startSync room m =
     (if \<not> storage m \<or> roomId m = None then m
      else m\<lparr>sync := Some (start (status room) (setOnUpdate room newSyncManager)),
             orphans := orphans m @ (case sync m of None \<Rightarrow> [] | Some old \<Rightarrow> [old])\<rparr>)"

definition createRoom ::
  "string option \<Rightarrow> 'g manager \<Rightarrow> 'g world \<Rightarrow> 'g room_state option \<times> 'g manager \<times> 'g world" where
  "createRoom playerNameArg m w =
     (case roomId m of
        None \<Rightarrow> (None, emit (OnError MsgNotInitialized) m, w)
      | Some rid \<Rightarrow>
          if \<not> storage m then (None, emit (OnError MsgNotInitialized) m, w)
          else
            (let m1 = takeName playerNameArg m
             in case this_playerName m1 of
                  None \<Rightarrow> (None, emit (OnError MsgNameRequired) m1, w)
                | Some nm \<Rightarrow>
                    if nm = [] then (None, emit (OnError MsgNameRequired) m1, w)
                    else
                      (case getRoom w of
                         (existing, w1) \<Rightarrow>
                           if (case existing of None \<Rightarrow> False | Some e \<Rightarrow> status e \<noteq> Ended)
                           then (None, emit (OnError MsgRoomExists) m1, w1)
                           else
                             (let room =
                                    \<lparr>room_id = rid, version = 1, hostId = this_playerId m1,
                                     status = Waiting,
                                     players =
                                       [\<lparr>player_id = this_playerId m1, name = nm,
                                         isHost = True, isReady = True, isOnline = True,
                                         lastSeen = now w1\<rparr>],
                                     gameState = None, createdAt = now w1,
                                     updatedAt = now w1\<rparr>
                              in case saveRoom room w1 of
                                   (success, w2) \<Rightarrow>
                                     if \<not> success
                                     then (None, emit (OnError MsgCreateFailed) m1, w2)
                                     else (Some room,
                                           emit (OnRoomUpdate room)
                                             (startSync room (m1\<lparr>this_isHost := True\<rparr>)),
                                           w2)))))"

text \<open>
  The updaters handed to \<open>updateWithLock\<close>. \<open>Date.now()\<close> inside an updater is read
  in the same turn as the \<open>updatedAt\<close> that \<open>updateWithLock\<close> has just set.
\<close>

definition onlineUpdater :: "string \<Rightarrow> bool \<Rightarrow> 'g room_state \<Rightarrow> 'g room_state" where
  "onlineUpdater me online room =
     room\<lparr>players :=
            map (\<lambda>p. if player_id p = me
                      then p\<lparr>isOnline := online, lastSeen := updatedAt room\<rparr> else p)
                (players room)\<rparr>"

definition readyUpdater :: "string \<Rightarrow> bool \<Rightarrow> 'g room_state \<Rightarrow> 'g room_state" where
  "readyUpdater me ready room =
     room\<lparr>players :=
            map (\<lambda>p. if player_id p = me then p\<lparr>isReady := ready\<rparr> else p) (players room)\<rparr>"

definition startGameUpdater :: "'g room_state \<Rightarrow> 'g room_state" where
  "startGameUpdater room =
     (let allReady = list_all isReady (players room)
      in if \<not> allReady then room else room\<lparr>status := Playing\<rparr>)"

definition gameStateUpdater :: "'g \<Rightarrow> 'g room_state \<Rightarrow> 'g room_state" where
  "gameStateUpdater gs room = room\<lparr>gameState := Some gs\<rparr>"

definition endGameUpdater :: "'g room_state \<Rightarrow> 'g room_state" where
  "endGameUpdater room = room\<lparr>status := Ended\<rparr>"

definition updateOnlineStatus :: "bool \<Rightarrow> 'g manager \<Rightarrow> 'g world \<Rightarrow> 'g manager \<times> 'g world" where
  "updateOnlineStatus online m w =
     (case sync m of
        None \<Rightarrow> (m, w)
      | Some sm \<Rightarrow>
          (case updateWithLock (onlineUpdater (this_playerId m) online) 3 sm w of
             (room, sm1, w1) \<Rightarrow> (synced sm sm1 m, w1)))"

definition joinRoom ::
  "string option \<Rightarrow> 'g manager \<Rightarrow> 'g world \<Rightarrow> 'g room_state option \<times> 'g manager \<times> 'g world" where
  "joinRoom playerNameArg m w =
     (if \<not> storage m \<or> roomId m = None then (None, emit (OnError MsgNotInitialized) m, w)
      else
        (let m1 = takeName playerNameArg m
         in if (case this_playerName m1 of None \<Rightarrow> True | Some nm \<Rightarrow> nm = [])
            then (None, emit (OnError MsgNameRequired) m1, w)
            else
              (case getRoom w of
                 (None, w1) \<Rightarrow> createRoom None m1 w1
               | (Some room, w1) \<Rightarrow>
                   (case find (\<lambda>p. player_id p = this_playerId m1) (players room) of
                      Some existingPlayer \<Rightarrow>
                        (case updateOnlineStatus True
                                (startSync room (m1\<lparr>this_isHost := isHost existingPlayer\<rparr>)) w1 of
                           (m2, w2) \<Rightarrow> (Some room, m2, w2))
                    | None \<Rightarrow>
                        if status room = Playing
                        then (None, emit (OnError MsgGameStarted) m1, w1)
                        else
                          (let newPlayer =
                                 \<lparr>player_id = this_playerId m1,
                                  name = (case this_playerName m1 of Some nm \<Rightarrow> nm | None \<Rightarrow> []),
                                  isHost = False, isReady = False, isOnline = True,
                                  lastSeen = now w1\<rparr>;
                               updatedRoom =
                                 room\<lparr>version := addOne (version room),
                                      players := players room @ [newPlayer],
                                      updatedAt := now w1\<rparr>
                           in case saveRoom updatedRoom w1 of
                                (success, w2) \<Rightarrow>
                                  if \<not> success
                                  then (None, emit (OnError MsgJoinFailed) m1, w2)
                                  else (Some updatedRoom,
                                        emit (OnPlayerJoin newPlayer)
                                          (emit (OnRoomUpdate updatedRoom)
                                             (startSync updatedRoom
                                                (m1\<lparr>this_isHost := False\<rparr>))),
                                        w2))))))"

text \<open>
  \<open>leaveRoom\<close>. The host is handed over when \<open>this.isHost\<close> holds and a player
  remains; the result of the write or of the deletion is not looked at.
\<close>

definition leaveRoom :: "'g manager \<Rightarrow> 'g world \<Rightarrow> 'g manager \<times> 'g world" where
  "leaveRoom m w =
     (case sync m of
        None \<Rightarrow> (m, w)
      | Some sm \<Rightarrow>
          if \<not> storage m \<or> roomId m = None then (m, w)
          else
            (let m1 = m\<lparr>sync := Some (stop sm)\<rparr>
             in case getRoom w of
                  (None, w1) \<Rightarrow> (m1, w1)
                | (Some room, w1) \<Rightarrow>
                    (let w2 =
                           (case filter (\<lambda>p. player_id p \<noteq> this_playerId m1) (players room) of
                              [] \<Rightarrow> snd (deleteRoom w1)
                            | p # ps \<Rightarrow>
                                (let updatedPlayers =
                                       (if this_isHost m1 then p\<lparr>isHost := True\<rparr> # ps
                                        else p # ps);
                                     newHostId =
                                       (if this_isHost m1 then player_id p else hostId room)
                                 in snd (saveRoom
                                      (room\<lparr>version := addOne (version room),
                                            hostId := newHostId,
                                            players := updatedPlayers, updatedAt := now w1\<rparr>)
                                      w1)))
                     in ((emit (OnPlayerLeave (this_playerId m1)) m1)
                           \<lparr>sync := None, this_isHost := False,
                            orphans := orphans m1 @ [stop sm]\<rparr>,
                         w2))))"

definition setReady :: "bool \<Rightarrow> 'g manager \<Rightarrow> 'g world \<Rightarrow> 'g manager \<times> 'g world" where
  "setReady ready m w =
     (case sync m of
        None \<Rightarrow> (m, w)
      | Some sm \<Rightarrow>
          (case updateWithLock (readyUpdater (this_playerId m) ready) 3 sm w of
             (room, sm1, w1) \<Rightarrow> (synced sm sm1 m, w1)))"

definition startGame :: "'g manager \<Rightarrow> 'g world \<Rightarrow> bool \<times> 'g manager \<times> 'g world" where
  "startGame m w =
     (case sync m of
        None \<Rightarrow> (False, emit (OnError MsgHostOnly) m, w)
      | Some sm \<Rightarrow>
          if \<not> this_isHost m then (False, emit (OnError MsgHostOnly) m, w)
          else
            (case updateWithLock startGameUpdater 3 sm w of
               (room, sm1, w1) \<Rightarrow>
                 if (case room of None \<Rightarrow> False | Some r \<Rightarrow> status r = Playing)
                 then (True, emit OnGameStart (synced sm sm1 m), w1)
                 else (False, emit (OnError MsgNotAllReady) (synced sm sm1 m), w1)))"

definition updateGameState :: "'g \<Rightarrow> 'g manager \<Rightarrow> 'g world \<Rightarrow> bool \<times> 'g manager \<times> 'g world" where
  "updateGameState gs m w =
     (case sync m of
        None \<Rightarrow> (False, m, w)
      | Some sm \<Rightarrow>
          if \<not> this_isHost m then (False, m, w)
          else
            (case updateWithLock (gameStateUpdater gs) 3 sm w of
               (room, sm1, w1) \<Rightarrow> (room \<noteq> None, synced sm sm1 m, w1)))"

definition endGame :: "'g manager \<Rightarrow> 'g world \<Rightarrow> 'g manager \<times> 'g world" where
  "endGame m w =
     (case sync m of
        None \<Rightarrow> (m, w)
      | Some sm \<Rightarrow>
          if \<not> this_isHost m then (m, w)
          else
            (case updateWithLock endGameUpdater 3 sm w of
               (room, sm1, w1) \<Rightarrow> (emit OnGameEnd (synced sm sm1 m), w1)))"

text \<open>
  One tick of the manager's sync loop: the pending timeout fires if no poll is under way,
  and the poll's fetch returns what the store holds.
\<close>

definition syncTick :: "'g manager \<Rightarrow> 'g world \<Rightarrow> 'g manager \<times> 'g world" where
  "syncTick m w =
     (case sync m of
        None \<Rightarrow> (m, w)
      | Some sm \<Rightarrow>
          (let sm1 = (case awaiting sm of
                        [] \<Rightarrow> (case intervalId sm of None \<Rightarrow> sm | Some h \<Rightarrow> timer_fires h sm)
                      | st # rest \<Rightarrow> sm)
           in case getRoom w of
                (room, w1) \<Rightarrow> (synced sm (poll_resume (Fetched room) sm1) m, w1)))"

text \<open>The same tick for the \<open>k\<close>-th sync manager that \<open>this.sync\<close> has let go of.\<close>

definition orphanTick :: "nat \<Rightarrow> 'g manager \<Rightarrow> 'g world \<Rightarrow> 'g manager \<times> 'g world" where
  "orphanTick k m w =
     (if k < length (orphans m)
      then
        (let sm = orphans m ! k;
             sm1 = (case awaiting sm of
                      [] \<Rightarrow> (case intervalId sm of None \<Rightarrow> sm | Some h \<Rightarrow> timer_fires h sm)
                    | st # rest \<Rightarrow> sm)
         in case getRoom w of
              (room, w1) \<Rightarrow>
                (let sm2 = poll_resume (Fetched room) sm1
                 in (m\<lparr>orphans := (orphans m)[k := sm2],
                       called := called m @ forwarded sm sm2\<rparr>, w1)))
      else (m, w))"

text \<open>
  The host invariant of a room: exactly one member is flagged as host, and it is the member
  named by \<open>hostId\<close>.
\<close>

definition hostInvariant :: "'g room_state \<Rightarrow> bool" where
  "hostInvariant room = (map player_id (filter isHost (players room)) = [hostId room])"

text \<open>The copy that \<open>updateWithLock\<close> hands to the updater, made at time \<open>t\<close>.\<close>

definition bumped :: "'g room_state \<Rightarrow> nat \<Rightarrow> 'g room_state" where
  "bumped room t = room\<lparr>version := addOne (version room), updatedAt := t\<rparr>"

text \<open>
  Reading a trace: the number of leading failures among the coming writes, the number of
  writes attempted, the delays awaited, and the three steps of an attempt whose write
  fails in round \<open>i\<close> of the loop.
\<close>

definition leadingFailures :: "bool list \<Rightarrow> nat" where
  "leadingFailures outs = length (takeWhile Not outs)"

fun is_put :: "io \<Rightarrow> bool" where
  "is_put (Put ok) = True"
| "is_put x = False"

definition attempts :: "io list \<Rightarrow> nat" where
  "attempts tr = length (filter is_put tr)"

fun waits :: "io list \<Rightarrow> nat list" where
  "waits [] = []"
| "waits (Wait ms # tr) = ms # waits tr"
| "waits (x # tr) = waits tr"

definition failedAttempt :: "nat \<Rightarrow> io list" where
  "failedAttempt i = [Get, Put False, Wait (100 * (i + 1))]"

section \<open>Concrete inputs\<close>

text \<open>Room members, random sources and games used where a property is run on an input.\<close>

definition mkMember :: "string \<Rightarrow> bool \<Rightarrow> bool \<Rightarrow> player" where
  "mkMember n h r =
     \<lparr>player_id = n, name = n, isHost = h, isReady = r, isOnline = True, lastSeen = 0\<rparr>"

definition fourPlayers :: "player list" where
  "fourPlayers =
     [mkMember ''A'' True True, mkMember ''B'' False True, mkMember ''C'' False True,
      mkMember ''D'' False True]"

definition tenPlayers :: "player list" where
  "tenPlayers =
     [mkMember ''A'' True True, mkMember ''B'' False True, mkMember ''C'' False True,
      mkMember ''D'' False True, mkMember ''E'' False True, mkMember ''F'' False True,
      mkMember ''G'' False True, mkMember ''H'' False True, mkMember ''I'' False True,
      mkMember ''J'' False True]"

text \<open>Two random sources: every draw \<open>0\<close>, and every draw one half.\<close>

definition zeroRnd :: "nat \<Rightarrow> real" where
  "zeroRnd k = 0"

definition halfRnd :: "nat \<Rightarrow> real" where
  "halfRnd k = 1 / 2"

definition fourPlayerGame :: game_state where
  "fourPlayerGame =
     createMultiplayerGameState zeroRnd (mkGame []) fourPlayers
       (createSeatMappings fourPlayers (length fourPlayers)) None"

definition mkRoom :: "nat \<Rightarrow> room_status \<Rightarrow> string \<Rightarrow> player list \<Rightarrow> unit room_state" where
  "mkRoom v st h ps =
     \<lparr>room_id = ''ROOM-1'', version = v, hostId = h, status = st, players = ps,
      gameState = None, createdAt = 0, updatedAt = 0\<rparr>"

definition lobby :: "unit room_state" where
  "lobby = mkRoom 1 Waiting ''A'' [mkMember ''A'' True True, mkMember ''B'' False False]"

text \<open>A store that fails its first two writes and succeeds on the third, and an empty one.\<close>

definition flakyWorld :: "unit world" where
  "flakyWorld =
     \<lparr>stored = Some lobby, saveOutcomes = [False, False, True], now = 0, io_trace = []\<rparr>"

definition emptyWorld :: "unit world" where
  "emptyWorld = \<lparr>stored = None, saveOutcomes = [], now = 0, io_trace = []\<rparr>"

text \<open>A fresh instance after \<open>start()\<close>: its first poll awaits the fetch.\<close>

definition polling :: "unit sync_manager" where
  "polling = start Waiting newSyncManager"

text \<open>
  Three clients \<open>A\<close>, \<open>B\<close>, \<open>C\<close> on one store, each named as its id.
  \<open>A\<close> creates the room, \<open>B\<close> and \<open>C\<close> join, \<open>A\<close> leaves, the sync
  loop of \<open>B\<close> ticks; then \<open>B\<close> either leaves or tries to start the game.
\<close>

definition initManager :: "string \<Rightarrow> unit manager" where
  "initManager pid =
     \<lparr>storage = True, roomId = Some ''ROOM-1'', sync = None, this_playerId = pid,
      this_playerName = None, this_isHost = False, called = [], orphans = []\<rparr>"

definition roomCreated :: "unit room_state option \<times> unit manager \<times> unit world" where
  "roomCreated = createRoom (Some ''A'') (initManager ''A'') emptyWorld"

definition bJoined :: "unit room_state option \<times> unit manager \<times> unit world" where
  "bJoined = joinRoom (Some ''B'') (initManager ''B'') (snd (snd roomCreated))"

definition cJoined :: "unit room_state option \<times> unit manager \<times> unit world" where
  "cJoined = joinRoom (Some ''C'') (initManager ''C'') (snd (snd bJoined))"

definition aLeft :: "unit manager \<times> unit world" where
  "aLeft = leaveRoom (fst (snd roomCreated)) (snd (snd cJoined))"

definition bTicked :: "unit manager \<times> unit world" where
  "bTicked = syncTick (fst (snd bJoined)) (snd aLeft)"

definition bLeft :: "unit manager \<times> unit world" where
  "bLeft = leaveRoom (fst bTicked) (snd bTicked)"

definition bStarts :: "bool \<times> unit manager \<times> unit world" where
  "bStarts = startGame (fst bTicked) (snd bTicked)"

text \<open>A store holding the lobby, an updater that overwrites the version, a ready host.\<close>

definition lobbyWorld :: "unit world" where
  "lobbyWorld = \<lparr>stored = Some lobby, saveOutcomes = [], now = 7, io_trace = []\<rparr>"

definition resetVersion :: "unit room_state \<Rightarrow> unit room_state" where
  "resetVersion room = room\<lparr>version := 0\<rparr>"

text \<open>
  The host of the lobby, with the sync manager that \<open>startSync\<close> builds for the lobby.
  In the lobby \<open>B\<close> is not ready. \<open>downWorld\<close> is the same store when its next three
  writes fail; in \<open>readyLobby\<close> everybody is ready, and \<open>readyDownWorld\<close> holds it
  while three writes fail; \<open>playingWorld\<close> holds a room that is already playing, with
  \<open>B\<close> not ready; \<open>brokenWorld\<close> is an empty store whose next write fails.
\<close>

definition observing :: "unit sync_manager" where
  "observing = start Waiting (setOnUpdate lobby newSyncManager)"

definition hostManager :: "unit manager" where
  "hostManager =
     \<lparr>storage = True, roomId = Some ''ROOM-1'', sync = Some observing, this_playerId = ''A'',
      this_playerName = Some ''A'', this_isHost = True, called = [], orphans = []\<rparr>"

definition downWorld :: "unit world" where
  "downWorld =
     \<lparr>stored = Some lobby, saveOutcomes = [False, False, False], now = 7, io_trace = []\<rparr>"

definition readyLobby :: "unit room_state" where
  "readyLobby = mkRoom 1 Waiting ''A'' [mkMember ''A'' True True, mkMember ''B'' False True]"

definition readyWorld :: "unit world" where
  "readyWorld = \<lparr>stored = Some readyLobby, saveOutcomes = [], now = 7, io_trace = []\<rparr>"

definition readyDownWorld :: "unit world" where
  "readyDownWorld =
     \<lparr>stored = Some readyLobby, saveOutcomes = [False, False, False], now = 7,
      io_trace = []\<rparr>"

definition playingWorld :: "unit world" where
  "playingWorld =
     \<lparr>stored = Some (mkRoom 3 Playing ''A'' [mkMember ''A'' True True, mkMember ''B'' False False]),
      saveOutcomes = [], now = 7, io_trace = []\<rparr>"

definition brokenWorld :: "unit world" where
  "brokenWorld = \<lparr>stored = None, saveOutcomes = [False], now = 7, io_trace = []\<rparr>"

text \<open>
  \<open>A\<close> creating the room on the broken store, and \<open>C\<close> joining the lobby while
  the writes fail.
\<close>

definition createFails :: "unit room_state option \<times> unit manager \<times> unit world" where
  "createFails = createRoom (Some ''A'') (initManager ''A'') brokenWorld"

definition joinFails :: "unit room_state option \<times> unit manager \<times> unit world" where
  "joinFails = joinRoom (Some ''C'') (initManager ''C'') downWorld"

section \<open>Properties\<close>

subsection \<open>Adding one to a version\<close>

lemma bitLength_range: "2 ^ k \<le> n \<Longrightarrow> n < 2 ^ Suc k \<Longrightarrow> bitLength n = Suc k"
proof (induction k arbitrary: n)
  case 0
  then have "n = 1" by simp
  then show ?case by (simp add: bitLength.simps[of "Suc 0"] bitLength.simps[of 0])
next
  case (Suc k)
  have "(0::nat) < 2 ^ Suc k" by simp
  then have n0: "n \<noteq> 0" using Suc.prems(1) by linarith
  have "2 ^ k \<le> n div 2" using Suc.prems(1) by simp
  moreover have "n div 2 < 2 ^ Suc k" using Suc.prems(2) by simp
  ultimately have "bitLength (n div 2) = Suc k" by (rule Suc.IH)
  then show ?case using n0 by (simp add: bitLength.simps[of n])
qed

lemma bitLength_le: "n < 2 ^ k \<Longrightarrow> bitLength n \<le> k"
proof (induction k arbitrary: n)
  case 0
  then show ?case by (simp add: bitLength.simps[of 0])
next
  case (Suc k)
  show ?case
  proof (cases "n = 0")
    case True
    then show ?thesis by (simp add: bitLength.simps[of 0])
  next
    case False
    have "n div 2 < 2 ^ k" using Suc.prems by simp
    then have "bitLength (n div 2) \<le> k" by (rule Suc.IH)
    then show ?thesis using False by (simp add: bitLength.simps[of n])
  qed
qed

lemma roundToDouble_exact: "n < 2 ^ 53 \<Longrightarrow> roundToDouble n = n"
  using bitLength_le[of n 53] by (simp add: roundToDouble_def Let_def)

lemma roundToDouble_pow53: "roundToDouble (2 ^ 53) = 2 ^ 53"
proof -
  have b: "bitLength (2 ^ 53) = Suc 53" by (rule bitLength_range) simp_all
  show ?thesis unfolding roundToDouble_def Let_def b by simp
qed

lemma addOne_below: "v < 2 ^ 53 \<Longrightarrow> addOne v = v + 1"
proof -
  assume v: "v < 2 ^ 53"
  show ?thesis
  proof (cases "v + 1 < 2 ^ 53")
    case True
    then show ?thesis by (simp add: addOne_def roundToDouble_exact)
  next
    case False
    then have "v + 1 = 2 ^ 53" using v by simp
    then show ?thesis unfolding addOne_def by (simp only: roundToDouble_pow53)
  qed
qed

lemma addOne_at_limit: "addOne (2 ^ 53) = 2 ^ 53"
proof -
  have b: "bitLength (2 ^ 53 + 1) = Suc 53" by (rule bitLength_range) simp_all
  show ?thesis unfolding addOne_def roundToDouble_def Let_def b by simp
qed

subsection \<open>Game-end detection\<close>

lemma checkGameEnd_counts:
  "checkGameEnd (Some gs) =
     (if aliveWolfCount gs = 0 then (True, Some (gs\<lparr>winner := Some Village\<rparr>))
      else if aliveNonWolfCount gs \<le> aliveWolfCount gs
        then (True, Some (gs\<lparr>winner := Some Wolf\<rparr>))
      else (False, Some gs))"
  by (simp add: checkGameEnd_def aliveWolfCount_def aliveNonWolfCount_def Let_def conj_commute)

text \<open>
  Claim C5. For every game state the game-end check, counting over the alive players,
  returns true with winner village when no werewolf is alive, returns true with winner wolf
  when (some werewolf is alive and) the alive werewolves are at least as many as the alive
  non-wolves, and returns false, leaving the state as it is, otherwise. With 2 alive wolves
  against 2 alive non-wolves the wolves win; with no wolf alive the village wins; with 1
  alive wolf against 5 alive villagers the game goes on. A dead wolf does not count.
\<close>

theorem checkGameEnd_spec:
  "checkGameEnd (Some gs) =
     (if aliveWolfCount gs = 0 then (True, Some (gs\<lparr>winner := Some Village\<rparr>))
      else if aliveNonWolfCount gs \<le> aliveWolfCount gs
        then (True, Some (gs\<lparr>winner := Some Wolf\<rparr>))
      else (False, Some gs))
   \<and> (let g = mkGame [mkPlayer 1 Werewolf True, mkPlayer 2 Werewolf True,
                       mkPlayer 3 Seer True, mkPlayer 4 Villager True]
      in checkGameEnd (Some g) = (True, Some (g\<lparr>winner := Some Wolf\<rparr>)))
   \<and> (let g = mkGame [mkPlayer 1 Werewolf False, mkPlayer 2 Villager True,
                       mkPlayer 3 Witch True]
      in checkGameEnd (Some g) = (True, Some (g\<lparr>winner := Some Village\<rparr>)))
   \<and> (let g = mkGame [mkPlayer 1 Werewolf True, mkPlayer 2 Villager True,
                       mkPlayer 3 Villager True, mkPlayer 4 Villager True,
                       mkPlayer 5 Villager True, mkPlayer 6 Villager True,
                       mkPlayer 7 Werewolf False]
      in checkGameEnd (Some g) = (False, Some g))"
proof (intro conjI)
  show "checkGameEnd (Some gs) =
     (if aliveWolfCount gs = 0 then (True, Some (gs\<lparr>winner := Some Village\<rparr>))
      else if aliveNonWolfCount gs \<le> aliveWolfCount gs
        then (True, Some (gs\<lparr>winner := Some Wolf\<rparr>))
      else (False, Some gs))"
    by (rule checkGameEnd_counts)
qed (simp_all add: checkGameEnd_def mkGame_def mkPlayer_def Let_def)


subsection \<open>Shuffling permutes\<close>

lemma rnd_index_le:
  assumes "0 \<le> r" and "r < 1"
  shows "nat \<lfloor>r * real (Suc i)\<rfloor> \<le> i"
proof -
  have "r * real (Suc i) < real (Suc i)" using assms by simp
  then have "\<lfloor>r * real (Suc i)\<rfloor> < int (Suc i)" by (simp add: floor_less_iff)
  then show ?thesis by simp
qed

lemma shuffle_loop_mset:
  "\<forall>k. 0 \<le> rnd k \<and> rnd k < 1 \<Longrightarrow> i < length result \<or> i = 0 \<Longrightarrow>
   mset (shuffle_loop rnd i result) = mset result"
proof (induction i arbitrary: result)
  case 0
  then show ?case by simp
next
  case (Suc i')
  let ?j = "nat \<lfloor>rnd (length result - 1 - Suc i') * real (Suc i' + 1)\<rfloor>"
  let ?r = "result[Suc i' := result ! ?j, ?j := result ! Suc i']"
  from Suc.prems have len: "Suc i' < length result" by auto
  have j: "?j \<le> Suc i'"
    using rnd_index_le[of "rnd (length result - 1 - Suc i')" "Suc i'"] Suc.prems(1) by simp
  have m: "mset ?r = mset result" using len j by (simp add: mset_swap)
  have "mset (shuffle_loop rnd i' ?r) = mset ?r"
    using Suc.IH[of ?r] Suc.prems(1) len by simp
  then show ?case using m by (simp add: Let_def)
qed

lemma shuffle_loop_length: "length (shuffle_loop rnd i result) = length result"
  by (induction i arbitrary: result) (simp_all add: Let_def)

lemma shuffleArray_mset:
  "\<forall>k. 0 \<le> rnd k \<and> rnd k < 1 \<Longrightarrow> mset (shuffleArray rnd xs) = mset xs"
  unfolding shuffleArray_def by (rule shuffle_loop_mset) (cases xs, auto)

lemma shuffleArray_length: "length (shuffleArray rnd xs) = length xs"
  by (simp add: shuffleArray_def shuffle_loop_length)

subsection \<open>The role table\<close>

lemma configs_Some_length: "configs n = Some r \<Longrightarrow> length r = n"
  by (auto simp: configs_def configs6_def split: if_splits)

lemma configs_dom: "(configs n \<noteq> None) = (4 \<le> n \<and> n \<le> 12)"
proof
  assume "configs n \<noteq> None"
  then show "4 \<le> n \<and> n \<le> 12" by (auto simp: configs_def split: if_splits)
next
  assume range: "4 \<le> n \<and> n \<le> 12"
  show "configs n \<noteq> None"
  proof
    assume "configs n = None"
    then have "n < 4 \<or> 12 < n" by (simp add: configs_def split: if_splits) arith
    with range show False by simp
  qed
qed

lemma tableRow_length: "4 \<le> c \<Longrightarrow> c \<le> 12 \<Longrightarrow> length (tableRow c) = c"
  using configs_dom[of c] configs_Some_length[of c] by (auto simp: tableRow_def)

lemma assignRoles_eq: "assignRoles rnd n = shuffleArray rnd (tableRow (min (max n 4) 12))"
  by (simp add: assignRoles_def Let_def)

lemma assignRoles_length: "length (assignRoles rnd n) = min (max n 4) 12"
  by (simp add: assignRoles_eq shuffleArray_length tableRow_length)

lemma assignRoles_mset:
  "\<forall>k. 0 \<le> rnd k \<and> rnd k < 1 \<Longrightarrow>
   mset (assignRoles rnd n) = mset (tableRow (min (max n 4) 12))"
  by (simp add: assignRoles_eq shuffleArray_mset)

subsection \<open>Seat mappings and the players of the created state\<close>

lemma createSeatMappings_all:
  "createSeatMappings mps (length mps) =
     map (\<lambda>(index, mp).
            \<lparr>multiPlayerId = player_id mp, multiPlayerName = name mp,
             gameSeat = index + 1, gamePlayerId = PlayerSeat (index + 1)\<rparr>)
         (enumerate 0 mps)"
proof -
  have "filter (\<lambda>(index, mp). index < length mps) (enumerate 0 mps) = enumerate 0 mps"
    by (rule filter_True) (auto simp: in_set_enumerate_eq)
  then show ?thesis by (simp add: createSeatMappings_def)
qed

lemma createSeatMappings_seats:
  "map gameSeat (createSeatMappings mps (length mps)) = [1 ..< length mps + 1]"
  by (rule nth_equalityI)
     (simp_all add: createSeatMappings_all nth_enumerate_eq del: upt_Suc)

lemma createSeatMappings_names:
  "map multiPlayerName (createSeatMappings mps (length mps)) = map name mps"
  by (rule nth_equalityI) (simp_all add: createSeatMappings_all nth_enumerate_eq)

lemma game_players_length:
  "length (game_players (createMultiplayerGameState rnd base mps sms d)) =
     max (length sms) (max (length mps) 6)"
  by (simp add: createMultiplayerGameState_def Let_def)

lemma game_players_roles:
  assumes "length sms = length mps" and "length mps \<le> 12"
  shows "map role (game_players (createMultiplayerGameState rnd base mps sms d)) =
     map Some (assignRoles rnd (length mps))
       @ replicate (max (length mps) 6 - min (max (length mps) 4) 12) (Some Villager)"
    (is "?l = ?r")
proof (rule nth_equalityI)
  have L: "length (assignRoles rnd (length mps)) = min (max (length mps) 4) 12"
    by (rule assignRoles_length)
  show "length ?l = length ?r"
    using assms by (simp add: game_players_length L)
  fix i
  assume "i < length ?l"
  then have i: "i < max (length mps) 6" using assms by (simp add: game_players_length)
  show "?l ! i = ?r ! i"
    using i assms L
    by (auto simp: createMultiplayerGameState_def Let_def nth_append nth_enumerate_eq
          nth_opt_def split: prod.splits)
qed

lemma game_players_seats:
  assumes "map gameSeat sms = [1 ..< length mps + 1]"
  shows "map seat (game_players (createMultiplayerGameState rnd base mps sms d)) =
     [1 ..< max (length mps) 6 + 1]"
    (is "?l = ?r")
proof (rule nth_equalityI)
  have len: "length sms = length mps"
    using assms by (metis length_map length_upt add_diff_cancel_right')
  show "length ?l = length ?r"
    using len by (simp add: game_players_length del: upt_Suc)
  fix i
  assume "i < length ?l"
  then have i: "i < max (length mps) 6" using len by (simp add: game_players_length)
  have "gameSeat (sms ! i) = i + 1" if a: "i < length mps"
  proof -
    have "gameSeat (sms ! i) = map gameSeat sms ! i" using a len by simp
    also have "\<dots> = i + 1" unfolding assms using a by (simp del: upt_Suc)
    finally show ?thesis .
  qed
  then show "?l ! i = ?r ! i"
    using i len
    by (auto simp: createMultiplayerGameState_def Let_def nth_append nth_enumerate_eq
          simp del: upt_Suc split: prod.splits)
qed

lemma game_players_names:
  assumes "length sms = length mps" and "6 \<le> length mps"
  shows "map displayName (game_players (createMultiplayerGameState rnd base mps sms d)) =
     map (\<lambda>m. HumanName (multiPlayerName m)) sms"
  using assms
  by (auto intro!: nth_equalityI
        simp: createMultiplayerGameState_def Let_def nth_enumerate_eq max_def)

lemma game_players_human:
  assumes "length sms = length mps" and "6 \<le> length mps"
  shows "list_all isHuman (game_players (createMultiplayerGameState rnd base mps sms d))"
  using assms
  by (auto simp: createMultiplayerGameState_def Let_def list_all_iff max_def)

lemma game_players_alive:
  "list_all alive (game_players (createMultiplayerGameState rnd base mps sms d))"
  by (auto simp: createMultiplayerGameState_def Let_def list_all_iff)

lemma fourPlayerGame_roles:
  "map role (game_players fourPlayerGame) =
     [Some Seer, Some Villager, Some Villager, Some Werewolf, Some Villager, Some Villager]"
  by code_simp

text \<open>
  Claim C6. For 10 participants and every outcome of the shuffle, \<open>createSeatMappings\<close>
  followed by \<open>createMultiplayerGameState\<close> yields exactly 10 game players, all human
  and alive, whose seats are 1 to 10 in join order (the player at seat \<open>k\<close> carries the
  name of the \<open>k\<close>-th participant), and whose roles are, as a multiset, the row of the
  table for 10: 3 werewolves, 1 seer, 1 witch, 1 hunter, 1 guard, 3 villagers.
\<close>

theorem createMultiplayerGameState_ten:
  assumes ten: "length multiPlayers = 10"
    and rnd: "\<forall>k. 0 \<le> rnd k \<and> rnd k < 1"
  shows "length (game_players (createMultiplayerGameState rnd baseState multiPlayers
             (createSeatMappings multiPlayers 10) d)) = 10
    \<and> map seat (game_players (createMultiplayerGameState rnd baseState multiPlayers
             (createSeatMappings multiPlayers 10) d)) = [1 ..< 11]
    \<and> map displayName (game_players (createMultiplayerGameState rnd baseState multiPlayers
             (createSeatMappings multiPlayers 10) d)) = map (HumanName \<circ> name) multiPlayers
    \<and> list_all alive (game_players (createMultiplayerGameState rnd baseState multiPlayers
             (createSeatMappings multiPlayers 10) d))
    \<and> list_all isHuman (game_players (createMultiplayerGameState rnd baseState multiPlayers
             (createSeatMappings multiPlayers 10) d))
    \<and> mset (map role (game_players (createMultiplayerGameState rnd baseState multiPlayers
             (createSeatMappings multiPlayers 10) d))) =
        mset (map Some [Werewolf, Werewolf, Werewolf, Seer, Witch, Hunter, Guard,
                        Villager, Villager, Villager])"
proof -
  let ?sms = "createSeatMappings multiPlayers (length multiPlayers)"
  let ?ps = "game_players (createMultiplayerGameState rnd baseState multiPlayers ?sms d)"
  have sl: "length ?sms = length multiPlayers" by (simp add: createSeatMappings_all)
  have "length ?ps = 10" using ten sl by (simp add: game_players_length)
  moreover have "map seat ?ps = [1 ..< 11]"
    using game_players_seats[OF createSeatMappings_seats, of rnd baseState multiPlayers d] ten
    by simp
  moreover have "map displayName ?ps = map (HumanName \<circ> name) multiPlayers"
  proof -
    have "map displayName ?ps = map (\<lambda>m. HumanName (multiPlayerName m)) ?sms"
      using game_players_names[OF sl, of rnd baseState d] ten by simp
    also have "\<dots> = map HumanName (map multiPlayerName ?sms)" by simp
    also have "\<dots> = map (HumanName \<circ> name) multiPlayers"
      by (simp only: createSeatMappings_names map_map)
    finally show ?thesis .
  qed
  moreover have "list_all alive ?ps" by (rule game_players_alive)
  moreover have "list_all isHuman ?ps" using game_players_human[OF sl] ten by simp
  moreover have "mset (map role ?ps) =
      mset (map Some [Werewolf, Werewolf, Werewolf, Seer, Witch, Hunter, Guard,
                      Villager, Villager, Villager])"
  proof -
    have "map role ?ps = map Some (assignRoles rnd 10)"
      using game_players_roles[OF sl, of rnd baseState d] ten by simp
    moreover have "mset (assignRoles rnd 10) = mset (tableRow 10)"
      using assignRoles_mset[OF rnd, of 10] by simp
    moreover have "tableRow 10 = [Werewolf, Werewolf, Werewolf, Seer, Witch, Hunter, Guard,
                      Villager, Villager, Villager]"
      by (simp add: tableRow_def configs_def)
    ultimately show ?thesis by (metis mset_map)
  qed
  ultimately show ?thesis using ten by simp
qed

theorem createMultiplayerGameState_ten_witness:
  "length tenPlayers = 10
    \<and> 0 \<le> halfRnd 0 \<and> halfRnd 0 < 1
    \<and> length (game_players (createMultiplayerGameState halfRnd (mkGame []) tenPlayers
             (createSeatMappings tenPlayers 10) None)) = 10
    \<and> map seat (game_players (createMultiplayerGameState halfRnd (mkGame []) tenPlayers
             (createSeatMappings tenPlayers 10) None)) = [1 ..< 11]
    \<and> mset (map role (game_players (createMultiplayerGameState halfRnd (mkGame []) tenPlayers
             (createSeatMappings tenPlayers 10) None))) =
        mset (map Some [Werewolf, Werewolf, Werewolf, Seer, Witch, Hunter, Guard,
                        Villager, Villager, Villager])"
proof -
  have ten: "length tenPlayers = 10" by (simp add: tenPlayers_def)
  have rnd: "\<forall>k. 0 \<le> halfRnd k \<and> halfRnd k < 1" by (simp add: halfRnd_def)
  show ?thesis
    using createMultiplayerGameState_ten[OF ten rnd, of "mkGame []" None] ten rnd by blast
qed

subsection \<open>Roles and seat count\<close>

text \<open>
  Claim C7, as stated, fails: the role list is chosen by the number of participants, not
  by the number of seats. With 4 participants the state has \<open>max 4 6 = 6\<close> seats, but
  its roles are not the row of the table for 6 (it has one werewolf, the row has two).
\<close>

theorem createMultiplayerGameState_seat_row_counterexample:
  "length fourPlayers = 4
   \<and> length (game_players fourPlayerGame) = max 4 6
   \<and> configs (max 4 6) = Some configs6
   \<and> mset (map role (game_players fourPlayerGame)) \<noteq> mset (map Some configs6)"
proof -
  have "count (mset (map role (game_players fourPlayerGame))) (Some Werewolf) = 1"
    unfolding fourPlayerGame_roles by simp
  moreover have "count (mset (map Some configs6)) (Some Werewolf) = 2"
    by (simp add: configs6_def)
  ultimately have "mset (map role (game_players fourPlayerGame)) \<noteq> mset (map Some configs6)"
    by auto
  moreover have "length (game_players fourPlayerGame) = max 4 6"
    using arg_cong[OF fourPlayerGame_roles, of length] by simp
  moreover have "configs (max 4 6) = Some configs6" by (simp add: configs_def)
  moreover have "length fourPlayers = 4" by (simp add: fourPlayers_def)
  ultimately show ?thesis by blast
qed

text \<open>
  Claim C7, amended. For every participant list and every outcome of the shuffle, the
  created state has \<open>max playerCount 6\<close> seats; the role list is a permutation of the
  table row for the participant count clamped to 4..12; with at most 12 participants the
  roles of the seats are that row followed by one Villager for each seat beyond the row,
  and the seats carry the row that the table has for the seat count exactly when there are
  6 to 12 participants. Every row of the table has exactly as many roles as its key, and
  the keys are exactly 4 to 12.
\<close>

theorem createMultiplayerGameState_roles:
  assumes rnd: "\<forall>k. 0 \<le> rnd k \<and> rnd k < 1"
  shows "length (game_players (createMultiplayerGameState rnd baseState multiPlayers
             (createSeatMappings multiPlayers (length multiPlayers)) d))
           = max (length multiPlayers) 6
    \<and> mset (assignRoles rnd (length multiPlayers))
           = mset (tableRow (min (max (length multiPlayers) 4) 12))
    \<and> (length multiPlayers \<le> 12 \<longrightarrow>
         mset (map role (game_players (createMultiplayerGameState rnd baseState multiPlayers
             (createSeatMappings multiPlayers (length multiPlayers)) d)))
           = mset (map Some (tableRow (min (max (length multiPlayers) 4) 12)))
             + replicate_mset (max (length multiPlayers) 6 - min (max (length multiPlayers) 4) 12)
                 (Some Villager))
    \<and> ((\<exists>row. configs (max (length multiPlayers) 6) = Some row
           \<and> mset (map role (game_players (createMultiplayerGameState rnd baseState
                 multiPlayers (createSeatMappings multiPlayers (length multiPlayers)) d)))
               = mset (map Some row))
         = (6 \<le> length multiPlayers \<and> length multiPlayers \<le> 12))
    \<and> (\<forall>n r. configs n = Some r \<longrightarrow> length r = n)
    \<and> (\<forall>n. (configs n \<noteq> None) = (4 \<le> n \<and> n \<le> 12))"
proof -
  let ?n = "length multiPlayers"
  let ?sms = "createSeatMappings multiPlayers ?n"
  let ?ps = "game_players (createMultiplayerGameState rnd baseState multiPlayers ?sms d)"
  let ?c = "min (max ?n 4) 12"
  have sl: "length ?sms = ?n" by (simp add: createSeatMappings_all)
  have len: "length ?ps = max ?n 6" using sl by (simp add: game_players_length)
  have ar: "mset (assignRoles rnd ?n) = mset (tableRow ?c)" by (rule assignRoles_mset[OF rnd])
  have pad: "mset (map role ?ps) =
      mset (map Some (tableRow ?c)) + replicate_mset (max ?n 6 - ?c) (Some Villager)"
    if le: "?n \<le> 12"
  proof -
    have "map role ?ps = map Some (assignRoles rnd ?n) @ replicate (max ?n 6 - ?c) (Some Villager)"
      by (rule game_players_roles[OF sl le])
    then have "mset (map role ?ps) =
       image_mset Some (mset (assignRoles rnd ?n)) + replicate_mset (max ?n 6 - ?c) (Some Villager)"
      by simp
    then show ?thesis by (simp add: ar)
  qed
  have exact: "mset (map role ?ps) = mset (map Some (tableRow (max ?n 6)))"
    if r: "6 \<le> ?n \<and> ?n \<le> 12"
  proof -
    have "max ?n 6 - ?c = 0" and "?c = max ?n 6" using r by auto
    then show ?thesis using pad r by simp
  qed
  have wolves: "count (mset (map role ?ps)) (Some Werewolf) = 1" if small: "?n < 6"
  proof (cases "?n = 5")
    case True
    then have "mset (map role ?ps) = mset (map Some (tableRow 5)) + replicate_mset 1 (Some Villager)"
      using pad by simp
    then show ?thesis by (simp add: tableRow_def configs_def)
  next
    case False
    then have c: "?c = 4" using small by auto
    have "mset (map role ?ps) = mset (map Some (tableRow 4)) + replicate_mset 2 (Some Villager)"
      using pad small unfolding c by (simp add: max_def)
    then show ?thesis by (simp add: tableRow_def configs_def)
  qed
  have iff: "(\<exists>row. configs (max ?n 6) = Some row \<and> mset (map role ?ps) = mset (map Some row))
      = (6 \<le> ?n \<and> ?n \<le> 12)"
  proof
    assume "\<exists>row. configs (max ?n 6) = Some row \<and> mset (map role ?ps) = mset (map Some row)"
    then obtain row where row: "configs (max ?n 6) = Some row"
      and eq: "mset (map role ?ps) = mset (map Some row)" by blast
    from row have le: "?n \<le> 12" using configs_dom[of "max ?n 6"] by simp
    have "6 \<le> ?n"
    proof (rule ccontr)
      assume "\<not> 6 \<le> ?n"
      then have small: "?n < 6" by simp
      then have "row = configs6" using row by (simp add: max_def configs_def)
      then have "count (mset (map role ?ps)) (Some Werewolf) = 2"
        using eq by (simp add: configs6_def)
      then show False using wolves[OF small] by simp
    qed
    then show "6 \<le> ?n \<and> ?n \<le> 12" using le by simp
  next
    assume r: "6 \<le> ?n \<and> ?n \<le> 12"
    then have "configs (max ?n 6) \<noteq> None" using configs_dom[of "max ?n 6"] by simp
    then have "configs (max ?n 6) = Some (tableRow (max ?n 6))" by (auto simp: tableRow_def)
    then show "\<exists>row. configs (max ?n 6) = Some row \<and> mset (map role ?ps) = mset (map Some row)"
      using exact[OF r] by blast
  qed
  have rows: "\<forall>n r. configs n = Some r \<longrightarrow> length r = n"
    using configs_Some_length by blast
  have keys: "\<forall>n. (configs n \<noteq> None) = (4 \<le> n \<and> n \<le> 12)"
    using configs_dom by blast
  have pad': "?n \<le> 12 \<longrightarrow> mset (map role ?ps) =
      mset (map Some (tableRow ?c)) + replicate_mset (max ?n 6 - ?c) (Some Villager)"
    using pad by blast
  show ?thesis
    apply (intro conjI)
    apply (rule len, rule ar, rule pad', rule iff, rule rows, rule keys)
    done
qed

theorem createMultiplayerGameState_roles_witness:
  "0 \<le> zeroRnd 0 \<and> zeroRnd 0 < 1
   \<and> length fourPlayers \<le> 12
   \<and> configs 4 = Some [Werewolf, Seer, Villager, Villager]
   \<and> length (game_players fourPlayerGame) = 6
   \<and> mset (map role (game_players fourPlayerGame))
        = mset (map Some [Werewolf, Seer, Villager, Villager])
          + replicate_mset 2 (Some Villager)
   \<and> 6 \<le> length tenPlayers \<and> length tenPlayers \<le> 12
   \<and> mset (map role (game_players (createMultiplayerGameState halfRnd (mkGame []) tenPlayers
             (createSeatMappings tenPlayers 10) None)))
        = mset (map Some [Werewolf, Werewolf, Werewolf, Seer, Witch, Hunter, Guard,
                          Villager, Villager, Villager])"
proof -
  have rnd: "\<forall>k. 0 \<le> zeroRnd k \<and> zeroRnd k < 1" by (simp add: zeroRnd_def)
  have rnd': "\<forall>k. 0 \<le> halfRnd k \<and> halfRnd k < 1" by (simp add: halfRnd_def)
  have n: "length fourPlayers = 4" by (simp add: fourPlayers_def)
  have n': "length tenPlayers = 10" by (simp add: tenPlayers_def)
  have row: "tableRow 4 = [Werewolf, Seer, Villager, Villager]"
    by (simp add: tableRow_def configs_def)
  have row': "tableRow 10 = [Werewolf, Werewolf, Werewolf, Seer, Witch, Hunter, Guard,
                          Villager, Villager, Villager]"
    by (simp add: tableRow_def configs_def)
  have cfg: "configs 4 = Some [Werewolf, Seer, Villager, Villager]"
    by (simp add: configs_def)
  note t = createMultiplayerGameState_roles[OF rnd, of "mkGame []" fourPlayers None,
      unfolded n, folded fourPlayerGame_def[unfolded n]]
  note t' = createMultiplayerGameState_roles[OF rnd', of "mkGame []" tenPlayers None,
      unfolded n']
  from t have "length (game_players fourPlayerGame) = 6" by simp
  moreover from t have "mset (map role (game_players fourPlayerGame))
        = mset (map Some [Werewolf, Seer, Villager, Villager])
          + replicate_mset 2 (Some Villager)"
    by (simp add: row)
  moreover from t' have
    "mset (map role (game_players (createMultiplayerGameState halfRnd (mkGame []) tenPlayers
             (createSeatMappings tenPlayers 10) None)))
        = mset (map Some [Werewolf, Werewolf, Werewolf, Seer, Witch, Hunter, Guard,
                          Villager, Villager, Villager])"
    by (simp add: row')
  ultimately show ?thesis using rnd n n' cfg by simp
qed

subsection \<open>The locked update: retries and backoff\<close>

lemma uwl_done: "\<not> i < n \<Longrightarrow> updateWithLock_from i u n sm w = (None, sm, w)"
  by (simp add: updateWithLock_from.simps[of i])

lemma uwl_absent:
  "i < n \<Longrightarrow> stored w = None \<Longrightarrow>
   updateWithLock_from i u n sm w = (None, sm, w\<lparr>io_trace := io_trace w @ [Get]\<rparr>)"
  by (simp add: updateWithLock_from.simps[of i] getRoom_def)

lemma uwl_success:
  "i < n \<Longrightarrow> stored w = Some room \<Longrightarrow> leadingFailures (saveOutcomes w) = 0 \<Longrightarrow>
   updateWithLock_from i u n sm w =
     (let updated = u (room\<lparr>version := addOne (version room), updatedAt := now w\<rparr>)
      in (Some updated,
          sm\<lparr>lastVersion := version updated, notified := notified sm @ [updated]\<rparr>,
          w\<lparr>stored := Some updated, saveOutcomes := tl (saveOutcomes w),
            io_trace := io_trace w @ [Get, Put True]\<rparr>))"
  by (cases "saveOutcomes w")
     (auto simp: updateWithLock_from.simps[of i] getRoom_def saveRoom_def Let_def notify_def
        leadingFailures_def split: if_splits)

lemma uwl_fail:
  "i < n \<Longrightarrow> stored w = Some room \<Longrightarrow> saveOutcomes w = False # rest \<Longrightarrow>
   updateWithLock_from i u n sm w =
     updateWithLock_from (i + 1) u n sm
       (w\<lparr>saveOutcomes := rest, now := now w + 100 * (i + 1),
          io_trace := io_trace w @ failedAttempt i\<rparr>)"
  by (simp add: updateWithLock_from.simps[of i] getRoom_def saveRoom_def Let_def sleep_def
        failedAttempt_def)

lemma uwl_present:
  "saveOutcomes w = outs \<Longrightarrow> stored w = Some room \<Longrightarrow>
     (fst (updateWithLock_from i u n sm w) \<noteq> None) = (i + leadingFailures outs < n)
   \<and> io_trace (snd (snd (updateWithLock_from i u n sm w))) =
       io_trace w @ concat (map failedAttempt [i ..< min (i + leadingFailures outs) n])
         @ (if i + leadingFailures outs < n then [Get, Put True] else [])"
proof (induction outs arbitrary: i w)
  case Nil
  show ?case
  proof (cases "i < n")
    case True
    then show ?thesis using Nil uwl_success[of i n w room u sm]
      by (simp add: leadingFailures_def Let_def)
  next
    case False
    then show ?thesis by (simp add: uwl_done)
  qed
next
  case (Cons ok rest)
  show ?case
  proof (cases "i < n")
    case False
    then show ?thesis by (simp add: uwl_done)
  next
    case True
    show ?thesis
    proof (cases ok)
      case True
      then have "leadingFailures (saveOutcomes w) = 0" using Cons.prems by (simp add: leadingFailures_def)
      then show ?thesis using \<open>i < n\<close> Cons.prems True uwl_success[of i n w room u sm]
        by (simp add: leadingFailures_def Let_def)
    next
      case False
      let ?w = "w\<lparr>saveOutcomes := rest, now := now w + 100 * (i + 1),
          io_trace := io_trace w @ failedAttempt i\<rparr>"
      have step: "updateWithLock_from i u n sm w = updateWithLock_from (i + 1) u n sm ?w"
        using uwl_fail[OF \<open>i < n\<close> Cons.prems(2)] Cons.prems(1) False by simp
      have lf: "leadingFailures (ok # rest) = Suc (leadingFailures rest)"
        using False by (simp add: leadingFailures_def)
      have ih: "(fst (updateWithLock_from (i + 1) u n sm ?w) \<noteq> None) = (i + 1 + leadingFailures rest < n)
        \<and> io_trace (snd (snd (updateWithLock_from (i + 1) u n sm ?w))) =
           io_trace ?w @ concat (map failedAttempt [i + 1 ..< min (i + 1 + leadingFailures rest) n])
           @ (if i + 1 + leadingFailures rest < n then [Get, Put True] else [])"
        using Cons.IH[of ?w "i + 1"] Cons.prems(2) by simp
      have upt: "[i ..< min (i + Suc (leadingFailures rest)) n] =
                 i # [i + 1 ..< min (i + 1 + leadingFailures rest) n]"
        using \<open>i < n\<close> by (simp add: upt_conv_Cons)
      show ?thesis
        unfolding step lf upt using ih by simp
    qed
  qed
qed

lemma attempts_append: "attempts (xs @ ys) = attempts xs + attempts ys"
  by (simp add: attempts_def)

lemma waits_append: "waits (xs @ ys) = waits xs @ waits ys"
  by (induction xs rule: waits.induct) simp_all

lemma attempts_failed: "attempts (concat (map failedAttempt [i ..< m])) = m - i"
  by (induction m) (simp_all add: attempts_append attempts_def failedAttempt_def Suc_diff_le)

lemma waits_failed:
  "waits (concat (map failedAttempt [i ..< m])) = map (\<lambda>k. 100 * (k + 1)) [i ..< m]"
  by (induction m) (simp_all add: waits_append failedAttempt_def)

text \<open>
  Claim C1. \<open>updateWithLock\<close> returns \<open>null\<close> when the room is absent at the fetch.
  With the room present it returns a room exactly when the number of leading failed writes
  is below \<open>maxRetries\<close>: every failed write is followed by a wait of 100 ms times the
  number of the attempt, then by a new fetch, apply and write; at most \<open>maxRetries\<close>
  writes are attempted, and after \<open>maxRetries\<close> failures the result is \<open>null\<close>.
  Against a store that fails its first 2 writes and succeeds on the 3rd, the call returns
  a room when \<open>maxRetries \<ge> 3\<close> and \<open>null\<close> when \<open>maxRetries = 2\<close>.
\<close>

theorem updateWithLock_retries:
  "(stored w = None \<longrightarrow> fst (updateWithLock updater maxRetries sm w) = None)
   \<and> (stored w \<noteq> None \<longrightarrow>
        (fst (updateWithLock updater maxRetries sm w) \<noteq> None)
          = (leadingFailures (saveOutcomes w) < maxRetries)
      \<and> io_trace (snd (snd (updateWithLock updater maxRetries sm w)))
          = io_trace w
            @ concat (map failedAttempt [0 ..< min (leadingFailures (saveOutcomes w)) maxRetries])
            @ (if leadingFailures (saveOutcomes w) < maxRetries then [Get, Put True] else [])
      \<and> waits (io_trace (snd (snd (updateWithLock updater maxRetries sm w))))
          = waits (io_trace w)
            @ map (\<lambda>k. 100 * (k + 1)) [0 ..< min (leadingFailures (saveOutcomes w)) maxRetries])
   \<and> attempts (io_trace (snd (snd (updateWithLock updater maxRetries sm w))))
        \<le> attempts (io_trace w) + maxRetries
   \<and> (stored w \<noteq> None \<and> saveOutcomes w = [False, False, True] \<longrightarrow>
        (3 \<le> maxRetries \<longrightarrow> fst (updateWithLock updater maxRetries sm w) \<noteq> None)
      \<and> (maxRetries = 2 \<longrightarrow> fst (updateWithLock updater maxRetries sm w) = None))"
proof -
  let ?res = "updateWithLock updater maxRetries sm w"
  let ?k = "leadingFailures (saveOutcomes w)"
  have absent: "fst ?res = None \<and> attempts (io_trace (snd (snd ?res))) = attempts (io_trace w)"
    if "stored w = None"
  proof (cases "0 < maxRetries")
    case True
    then show ?thesis
      using that by (simp add: updateWithLock_def uwl_absent attempts_append attempts_def)
  next
    case False
    then show ?thesis by (simp add: updateWithLock_def uwl_done)
  qed
  have present: "(fst ?res \<noteq> None) = (?k < maxRetries)
      \<and> io_trace (snd (snd ?res))
          = io_trace w @ concat (map failedAttempt [0 ..< min ?k maxRetries])
            @ (if ?k < maxRetries then [Get, Put True] else [])"
    if "stored w \<noteq> None"
  proof -
    from that obtain room where "stored w = Some room" by auto
    from uwl_present[OF refl this, of 0 updater maxRetries sm] show ?thesis
      by (simp add: updateWithLock_def)
  qed
  have wts: "waits (io_trace (snd (snd ?res)))
          = waits (io_trace w) @ map (\<lambda>k. 100 * (k + 1)) [0 ..< min ?k maxRetries]"
    if "stored w \<noteq> None"
    using present[OF that] by (simp add: waits_append waits_failed)
  have att: "attempts (io_trace (snd (snd ?res))) \<le> attempts (io_trace w) + maxRetries"
  proof (cases "stored w")
    case None
    then show ?thesis using absent by simp
  next
    case (Some room)
    then have "attempts (io_trace (snd (snd ?res)))
        = attempts (io_trace w) + min ?k maxRetries + (if ?k < maxRetries then 1 else 0)"
      using present by (simp add: attempts_append attempts_failed) (simp add: attempts_def)
    then show ?thesis by (simp split: if_splits)
  qed
  have flaky: "(3 \<le> maxRetries \<longrightarrow> fst ?res \<noteq> None) \<and> (maxRetries = 2 \<longrightarrow> fst ?res = None)"
    if "stored w \<noteq> None \<and> saveOutcomes w = [False, False, True]"
  proof -
    have "?k = 2" using that by (simp add: leadingFailures_def)
    then show ?thesis using present that by auto
  qed
  show ?thesis using absent present wts att flaky by blast
qed

theorem updateWithLock_retries_witness:
  "stored flakyWorld \<noteq> None \<and> saveOutcomes flakyWorld = [False, False, True]
   \<and> fst (updateWithLock id 3 newSyncManager flakyWorld) \<noteq> None
   \<and> waits (io_trace (snd (snd (updateWithLock id 3 newSyncManager flakyWorld)))) = [100, 200]
   \<and> fst (updateWithLock id 2 newSyncManager flakyWorld) = None
   \<and> attempts (io_trace (snd (snd (updateWithLock id 2 newSyncManager flakyWorld)))) \<le> 2
   \<and> stored emptyWorld = None
   \<and> fst (updateWithLock id 3 newSyncManager emptyWorld) = None"
proof -
  have f: "stored flakyWorld \<noteq> None \<and> saveOutcomes flakyWorld = [False, False, True]"
    by (simp add: flakyWorld_def)
  have e: "stored emptyWorld = None" by (simp add: emptyWorld_def)
  have k: "leadingFailures (saveOutcomes flakyWorld) = 2"
    by (simp add: flakyWorld_def leadingFailures_def)
  have tr: "io_trace flakyWorld = []" by (simp add: flakyWorld_def)
  have u: "[0 ..< 2] = [0, Suc 0]" by (simp add: upt_rec)
  note t3 = updateWithLock_retries[of flakyWorld id 3 newSyncManager]
  note t2 = updateWithLock_retries[of flakyWorld id 2 newSyncManager]
  note t0 = updateWithLock_retries[of emptyWorld id 3 newSyncManager]
  from t3 f have "fst (updateWithLock id 3 newSyncManager flakyWorld) \<noteq> None"
    by (simp add: leadingFailures_def)
  moreover from t3 f have
    "waits (io_trace (snd (snd (updateWithLock id 3 newSyncManager flakyWorld)))) = [100, 200]"
    by (simp add: leadingFailures_def tr u failedAttempt_def)
  moreover from t2 f have "fst (updateWithLock id 2 newSyncManager flakyWorld) = None"
    by (simp add: leadingFailures_def)
  moreover from t2 have
    "attempts (io_trace (snd (snd (updateWithLock id 2 newSyncManager flakyWorld)))) \<le> 2"
    by (simp add: tr attempts_def leadingFailures_def failedAttempt_def)
  moreover from t0 e have "fst (updateWithLock id 3 newSyncManager emptyWorld) = None" by simp
  ultimately show ?thesis using f e by simp
qed

subsection \<open>Polling and the last-seen version\<close>

lemma stop_keeps: "lastVersion (stop sm) = lastVersion sm" "notified (stop sm) = notified sm"
  by (simp_all add: stop_def split: option.splits)

lemma poll_begin_keeps:
  "lastVersion (poll_begin st sm) = lastVersion sm" "notified (poll_begin st sm) = notified sm"
  by (simp_all add: poll_begin_def)

lemma timer_fires_keeps:
  "lastVersion (timer_fires h sm) = lastVersion sm" "notified (timer_fires h sm) = notified sm"
  by (simp_all add: timer_fires_def poll_begin_def split: option.splits prod.splits)

lemma poll_body_cases:
  "poll_body st fetched sm =
     (case fetched of
        Fetched (Some room) \<Rightarrow>
          (if lastVersion sm < version room
           then (sm\<lparr>lastVersion := version room, notified := notified sm @ [room]\<rparr>, status room)
           else (sm, st))
      | _ \<Rightarrow> (sm, st))"
  by (simp add: poll_body_def notify_def split: fetch.splits option.splits)

lemma poll_resume_keeps:
  "awaiting sm \<noteq> [] \<Longrightarrow>
     lastVersion (poll_resume fetched sm) = lastVersion (fst (poll_body (hd (awaiting sm)) fetched sm))
   \<and> notified (poll_resume fetched sm) = notified (fst (poll_body (hd (awaiting sm)) fetched sm))"
  by (cases "awaiting sm") (simp_all add: poll_resume_def Let_def split: prod.splits)

lemma poll_step_effect:
  assumes "is_poll_event e"
  shows "(\<exists>room. notified (sync_step sm e) = notified sm @ [room]
            \<and> lastVersion sm < version room \<and> lastVersion (sync_step sm e) = version room)
       \<or> (notified (sync_step sm e) = notified sm \<and> lastVersion (sync_step sm e) = lastVersion sm)"
proof (cases e)
  case (EvFetch f)
  show ?thesis
  proof (cases "awaiting sm")
    case Nil
    then show ?thesis using EvFetch by (simp add: poll_resume_def)
  next
    case (Cons st rest)
    then have "awaiting sm \<noteq> []" by simp
    from poll_resume_keeps[OF this, of f] show ?thesis
      using EvFetch
      by (auto simp: poll_body_cases split: fetch.splits option.splits if_splits)
  qed
qed (use assms in \<open>simp_all add: start_def stop_keeps poll_begin_keeps timer_fires_keeps\<close>)

lemma sorted_le_last:
  "sorted_wrt (<) (xs :: nat list) \<Longrightarrow> x \<in> set xs \<Longrightarrow> x \<le> last xs"
  by (induction xs) (auto simp: less_imp_le)

lemma poll_run_effect:
  assumes "list_all is_poll_event evs"
  shows "\<exists>new. notified (sync_run sm evs) = notified sm @ new
          \<and> sorted_wrt (<) (lastVersion sm # map version new)
          \<and> lastVersion (sync_run sm evs) = last (lastVersion sm # map version new)"
  using assms
proof (induction evs rule: rev_induct)
  case Nil
  then show ?case by (simp add: sync_run_def)
next
  case (snoc e evs)
  then obtain new where new: "notified (sync_run sm evs) = notified sm @ new"
      "sorted_wrt (<) (lastVersion sm # map version new)"
      "lastVersion (sync_run sm evs) = last (lastVersion sm # map version new)"
    by auto
  have run: "sync_run sm (evs @ [e]) = sync_step (sync_run sm evs) e"
    by (simp add: sync_run_def)
  from snoc.prems have e: "is_poll_event e" by simp
  from poll_step_effect[OF e, of "sync_run sm evs"] show ?case
  proof
    assume "\<exists>room. notified (sync_step (sync_run sm evs) e) = notified (sync_run sm evs) @ [room]
            \<and> lastVersion (sync_run sm evs) < version room
            \<and> lastVersion (sync_step (sync_run sm evs) e) = version room"
    then obtain room where r: "notified (sync_step (sync_run sm evs) e) = notified (sync_run sm evs) @ [room]"
       "lastVersion (sync_run sm evs) < version room"
       "lastVersion (sync_step (sync_run sm evs) e) = version room" by blast
    have "sorted_wrt (<) ((lastVersion sm # map version new) @ [version room])"
      unfolding sorted_wrt_append
    proof (intro conjI ballI)
      show "sorted_wrt (<) (lastVersion sm # map version new)" by (rule new(2))
      show "sorted_wrt (<) [version room]" by simp
      fix x y assume x: "x \<in> set (lastVersion sm # map version new)" and y: "y \<in> set [version room]"
      have "x \<le> last (lastVersion sm # map version new)"
        by (rule sorted_le_last[OF new(2) x])
      then show "x < y" using y r(2) new(3) by simp
    qed
    then show ?thesis
      using r new run
      by (intro exI[of _ "new @ [room]"]) simp
  next
    assume "notified (sync_step (sync_run sm evs) e) = notified (sync_run sm evs)
          \<and> lastVersion (sync_step (sync_run sm evs) e) = lastVersion (sync_run sm evs)"
    then show ?thesis using new run by (intro exI[of _ new]) simp
  qed
qed

lemma refresh_room:
  "refresh (Fetched (Some room)) sm =
     (Some room, sm\<lparr>lastVersion := version room, notified := notified sm @ [room]\<rparr>)"
  by (simp add: refresh_def notify_def)

text \<open>
  Claim C10. A poll whose fetch brings a room with a version above the last-seen one
  calls the observer with that room and sets last-seen to its version (and takes the
  room's status for the next interval); any other outcome of the fetch (the same or an
  older version, no room, an exception) leaves the instance as it is and calls nobody. So
  over any run of polling (start, stop, timers, fetches) the observer sees rooms of
  strictly increasing versions, all above the version last seen before the run, and
  last-seen never decreases. \<open>refresh\<close> calls the observer with any room it fetched
  and overwrites last-seen with its version, even a smaller one.
\<close>

theorem poll_notifies_newer_only:
  "(fetched = Fetched (Some room) \<and> lastVersion sm < version room \<longrightarrow>
      poll_body st fetched sm =
        (sm\<lparr>lastVersion := version room, notified := notified sm @ [room]\<rparr>, status room))
   \<and> (\<not> (\<exists>r. fetched = Fetched (Some r) \<and> lastVersion sm < version r) \<longrightarrow>
      poll_body st fetched sm = (sm, st))
   \<and> (awaiting sm = st # rest \<longrightarrow>
      notified (poll_resume fetched sm) = notified (fst (poll_body st fetched sm))
      \<and> lastVersion (poll_resume fetched sm) = lastVersion (fst (poll_body st fetched sm)))
   \<and> (list_all is_poll_event evs \<longrightarrow>
      lastVersion sm \<le> lastVersion (sync_run sm evs)
      \<and> (\<exists>new. notified (sync_run sm evs) = notified sm @ new
            \<and> sorted_wrt (<) (lastVersion sm # map version new)
            \<and> lastVersion (sync_run sm evs) = last (lastVersion sm # map version new)))
   \<and> refresh (Fetched (Some room)) sm =
        (Some room, sm\<lparr>lastVersion := version room, notified := notified sm @ [room]\<rparr>)"
proof -
  have newer: "poll_body st fetched sm =
        (sm\<lparr>lastVersion := version room, notified := notified sm @ [room]\<rparr>, status room)"
    if "fetched = Fetched (Some room) \<and> lastVersion sm < version room"
    using that by (simp add: poll_body_cases)
  have older: "poll_body st fetched sm = (sm, st)"
    if "\<not> (\<exists>r. fetched = Fetched (Some r) \<and> lastVersion sm < version r)"
    using that by (auto simp: poll_body_cases split: fetch.splits option.splits)
  have resume: "notified (poll_resume fetched sm) = notified (fst (poll_body st fetched sm))
      \<and> lastVersion (poll_resume fetched sm) = lastVersion (fst (poll_body st fetched sm))"
    if "awaiting sm = st # rest"
    using poll_resume_keeps[of sm fetched] that by simp
  have run: "lastVersion sm \<le> lastVersion (sync_run sm evs)
      \<and> (\<exists>new. notified (sync_run sm evs) = notified sm @ new
            \<and> sorted_wrt (<) (lastVersion sm # map version new)
            \<and> lastVersion (sync_run sm evs) = last (lastVersion sm # map version new))"
    if evs: "list_all is_poll_event evs"
  proof -
    from poll_run_effect[OF evs, of sm] obtain new where new:
      "notified (sync_run sm evs) = notified sm @ new"
      "sorted_wrt (<) (lastVersion sm # map version new)"
      "lastVersion (sync_run sm evs) = last (lastVersion sm # map version new)"
      by blast
    have "lastVersion sm \<le> last (lastVersion sm # map version new)"
      by (rule sorted_le_last[OF new(2)]) simp
    then show ?thesis using new by auto
  qed
  show ?thesis using newer older resume run refresh_room by blast
qed

theorem poll_notifies_newer_only_witness:
  "lastVersion polling < version lobby
   \<and> notified (fst (poll_body Waiting (Fetched (Some lobby)) polling)) = [lobby]
   \<and> lastVersion (fst (poll_body Waiting (Fetched (Some lobby)) polling)) = version lobby
   \<and> poll_body Waiting (Fetched None) polling = (polling, Waiting)
   \<and> awaiting polling = [Waiting]
   \<and> notified (poll_resume (Fetched (Some lobby)) polling) = [lobby]
   \<and> list_all is_poll_event
        [EvFetch (Fetched (Some lobby)), EvTimer 1, EvFetch (Fetched (Some lobby))]
   \<and> lastVersion polling
        \<le> lastVersion (sync_run polling
             [EvFetch (Fetched (Some lobby)), EvTimer 1, EvFetch (Fetched (Some lobby))])"
proof -
  have lv: "lastVersion polling = 0" and nt: "notified polling = []"
    and aw: "awaiting polling = [Waiting]"
    by (simp_all add: polling_def start_def stop_def poll_begin_def newSyncManager_def)
  have v: "version lobby = 1" by (simp add: lobby_def mkRoom_def)
  have evs: "list_all is_poll_event
        [EvFetch (Fetched (Some lobby)), EvTimer 1, EvFetch (Fetched (Some lobby))]"
    by simp
  have none: "\<not> (\<exists>r. (Fetched None :: unit fetch) = Fetched (Some r) \<and> lastVersion polling < version r)"
    by simp
  note t = poll_notifies_newer_only[of "Fetched (Some lobby)" lobby polling Waiting "[]"
      "[EvFetch (Fetched (Some lobby)), EvTimer 1, EvFetch (Fetched (Some lobby))]"]
  note t' = poll_notifies_newer_only[of "Fetched None" lobby polling Waiting "[]" "[]"]
  from t have body: "poll_body Waiting (Fetched (Some lobby)) polling =
      (polling\<lparr>lastVersion := version lobby, notified := notified polling @ [lobby]\<rparr>,
       status lobby)"
    by (simp add: lv v)
  from t' none have body': "poll_body Waiting (Fetched None) polling = (polling, Waiting)"
    by blast
  from t aw have res: "notified (poll_resume (Fetched (Some lobby)) polling) =
      notified (fst (poll_body Waiting (Fetched (Some lobby)) polling))"
    by blast
  from t evs have run: "lastVersion polling
        \<le> lastVersion (sync_run polling
             [EvFetch (Fetched (Some lobby)), EvTimer 1, EvFetch (Fetched (Some lobby))])"
    by blast
  show ?thesis
    using body body' res run evs aw by (simp add: lv v nt)
qed

subsection \<open>The locked update: what is returned and stored\<close>

lemma uwl_success_ex:
  assumes "i < n" and "stored w = Some room" and "leadingFailures (saveOutcomes w) = 0"
  shows "\<exists>t w'. updateWithLock_from i u n sm w =
       (Some (u (bumped room t)),
        sm\<lparr>lastVersion := version (u (bumped room t)),
           notified := notified sm @ [u (bumped room t)]\<rparr>, w')
     \<and> stored w' = Some (u (bumped room t))"
  by (rule exI[of _ "now w"], rule exI[of _ "w\<lparr>stored := Some (u (bumped room (now w))),
            saveOutcomes := tl (saveOutcomes w), io_trace := io_trace w @ [Get, Put True]\<rparr>"])
     (simp add: uwl_success[OF assms] Let_def bumped_def)

lemma uwl_from_success:
  "saveOutcomes w = outs \<Longrightarrow> stored w = Some room \<Longrightarrow> i + leadingFailures outs < n \<Longrightarrow>
   \<exists>t w'. updateWithLock_from i u n sm w =
       (Some (u (bumped room t)),
        sm\<lparr>lastVersion := version (u (bumped room t)),
           notified := notified sm @ [u (bumped room t)]\<rparr>, w')
     \<and> stored w' = Some (u (bumped room t))"
proof (induction outs arbitrary: i w)
  case Nil
  then have "i < n" and "leadingFailures (saveOutcomes w) = 0"
    by (simp_all add: leadingFailures_def)
  from uwl_success_ex[OF this(1) Nil.prems(2) this(2)] show ?case .
next
  case (Cons ok rest)
  then have i: "i < n" by simp
  show ?case
  proof (cases ok)
    case True
    then have "leadingFailures (saveOutcomes w) = 0"
      using Cons.prems by (simp add: leadingFailures_def)
    from uwl_success_ex[OF i Cons.prems(2) this] show ?thesis .
  next
    case False
    let ?w = "w\<lparr>saveOutcomes := rest, now := now w + 100 * (i + 1),
          io_trace := io_trace w @ failedAttempt i\<rparr>"
    have step: "updateWithLock_from i u n sm w = updateWithLock_from (i + 1) u n sm ?w"
      using uwl_fail[OF i Cons.prems(2)] Cons.prems(1) False by simp
    have "i + 1 + leadingFailures rest < n"
      using Cons.prems(3) False by (simp add: leadingFailures_def)
    from Cons.IH[of ?w "i + 1", OF _ _ this] Cons.prems(2) show ?thesis
      unfolding step by simp
  qed
qed

lemma uwl_from_failure:
  "saveOutcomes w = outs \<Longrightarrow> \<not> i + leadingFailures outs < n \<or> stored w = None \<Longrightarrow>
   \<exists>w'. updateWithLock_from i u n sm w = (None, sm, w') \<and> stored w' = stored w"
proof (induction outs arbitrary: i w)
  case Nil
  show ?case
  proof (cases "i < n")
    case True
    then have "stored w = None" using Nil.prems by (simp add: leadingFailures_def)
    then show ?thesis using True by (simp add: uwl_absent)
  next
    case False
    then show ?thesis by (simp add: uwl_done)
  qed
next
  case (Cons ok rest)
  show ?case
  proof (cases "i < n")
    case False
    then show ?thesis by (simp add: uwl_done)
  next
    case i: True
    show ?thesis
    proof (cases "stored w")
      case None
      then show ?thesis using i by (simp add: uwl_absent)
    next
      case (Some room)
      then have nf: "\<not> i + leadingFailures (ok # rest) < n" using Cons.prems(2) by simp
      then have ok: "\<not> ok" using i by (auto simp: leadingFailures_def)
      let ?w = "w\<lparr>saveOutcomes := rest, now := now w + 100 * (i + 1),
          io_trace := io_trace w @ failedAttempt i\<rparr>"
      have step: "updateWithLock_from i u n sm w = updateWithLock_from (i + 1) u n sm ?w"
        using uwl_fail[OF i Some] Cons.prems(1) ok by simp
      have "\<not> i + 1 + leadingFailures rest < n"
        using nf ok by (simp add: leadingFailures_def)
      from Cons.IH[of ?w "i + 1"] this show ?thesis
        unfolding step by simp
    qed
  qed
qed

lemma updateWithLock_success:
  assumes "stored w = Some room" and "leadingFailures (saveOutcomes w) < n"
  shows "\<exists>t w'. updateWithLock u n sm w =
       (Some (u (bumped room t)),
        sm\<lparr>lastVersion := version (u (bumped room t)),
           notified := notified sm @ [u (bumped room t)]\<rparr>, w')
     \<and> stored w' = Some (u (bumped room t))"
  using uwl_from_success[OF refl assms(1), of 0 n u sm] assms(2)
  by (simp add: updateWithLock_def)

lemma updateWithLock_failure:
  assumes "\<not> leadingFailures (saveOutcomes w) < n \<or> stored w = None"
  shows "\<exists>w'. updateWithLock u n sm w = (None, sm, w') \<and> stored w' = stored w"
  using uwl_from_failure[OF refl, of 0 w n u sm] assms
  by (simp add: updateWithLock_def)

lemma updateWithLock_Some:
  assumes "updateWithLock u n sm w = (Some r, sm', w')"
  shows "\<exists>room t. stored w = Some room \<and> r = u (bumped room t) \<and> stored w' = Some r
           \<and> lastVersion sm' = version r \<and> notified sm' = notified sm @ [r]"
proof (cases "\<not> leadingFailures (saveOutcomes w) < n \<or> stored w = None")
  case True
  from updateWithLock_failure[OF True, of u sm] assms show ?thesis by auto
next
  case False
  then obtain room where room: "stored w = Some room" and k: "leadingFailures (saveOutcomes w) < n"
    by auto
  from updateWithLock_success[OF room k, of u sm] assms room show ?thesis by auto
qed

subsection \<open>Versions written\<close>

lemma takeName_keeps [simp]:
  "this_playerId (takeName a m) = this_playerId m" "storage (takeName a m) = storage m"
  "roomId (takeName a m) = roomId m" "sync (takeName a m) = sync m"
  "this_isHost (takeName a m) = this_isHost m"
  by (simp_all add: takeName_def split: option.splits)

lemma saveRoom_ok:
  "saveRoom room w = (True, w') \<Longrightarrow> stored w' = Some room"
  by (auto simp: saveRoom_def split: list.splits if_splits)

lemma createRoom_version:
  assumes "createRoom a m w = (Some r, m', w')"
  shows "version r = 1 \<and> stored w' = Some r"
  using assms
  by (auto simp: createRoom_def getRoom_def Let_def dest!: saveRoom_ok
        split: option.splits if_splits prod.splits)

lemma joinRoom_version:
  assumes "joinRoom a m w = (Some r, m', w')" and "stored w = Some room"
    and "find (\<lambda>p. player_id p = this_playerId m) (players room) = None"
  shows "version r = addOne (version room) \<and> stored w' = Some r
       \<and> butlast (players r) = players room"
  using assms
  by (auto simp: joinRoom_def getRoom_def Let_def dest!: saveRoom_ok
        split: option.splits if_splits prod.splits)

lemma leaveRoom_version:
  assumes "stored w = Some room" and "sync m \<noteq> None" and "storage m" and "roomId m \<noteq> None"
    and "filter (\<lambda>p. player_id p \<noteq> this_playerId m) (players room) \<noteq> []"
    and "leadingFailures (saveOutcomes w) = 0"
  shows "map_option version (stored (snd (leaveRoom m w))) = Some (addOne (version room))"
proof -
  have ok: "\<And>x v. fst (saveRoom x (v\<lparr>saveOutcomes := saveOutcomes w\<rparr>)) = True"
    using assms(6) by (auto simp: saveRoom_def leadingFailures_def split: list.splits)
  show ?thesis
    using assms(1-5)
    apply (clarsimp simp: leaveRoom_def getRoom_def Let_def split: option.splits list.splits)
    subgoal for sm rid p ps
      using ok[of _ "w\<lparr>io_trace := io_trace w @ [Get]\<rparr>"]
      by (auto simp: saveRoom_def split: list.splits if_splits)
    done
qed

lemma updaters_keep_version:
  "version (readyUpdater me b x) = version x"
  "version (onlineUpdater me b x) = version x"
  "version (startGameUpdater x) = version x"
  "version (gameStateUpdater g x) = version x"
  "version (endGameUpdater x) = version x"
  by (simp_all add: readyUpdater_def onlineUpdater_def startGameUpdater_def
        gameStateUpdater_def endGameUpdater_def Let_def)

text \<open>
  Claim C2, as stated, fails: \<open>updateWithLock\<close> raises the version before it calls the
  updater and stores what the updater returns. With the lobby at version 1 and an updater
  that sets the version to 0, the call succeeds and returns and stores version 0, not 2.
\<close>

theorem updateWithLock_version_counterexample:
  "map_option version (stored lobbyWorld) = Some 1
   \<and> map_option version (fst (updateWithLock resetVersion 3 newSyncManager lobbyWorld)) = Some 0
   \<and> map_option version (stored (snd (snd (updateWithLock resetVersion 3 newSyncManager lobbyWorld))))
       = Some 0"
  by code_simp

text \<open>
  Claim C2, amended. For a fetched version below \<open>2 ^ 53\<close>: a successful
  \<open>updateWithLock\<close> whose updater leaves the version of its argument alone returns and
  stores a room whose version is the fetched version plus 1, and records it as last seen;
  the updaters of \<open>setReady\<close>, of the online status, of \<open>startGame\<close>,
  \<open>updateGameState\<close> and \<open>endGame\<close> all leave the version alone, whatever else
  they change. The direct writes of \<open>joinRoom\<close> (a new member appended) and of
  \<open>leaveRoom\<close> (some member remaining) also store the fetched version plus 1.
  \<open>createRoom\<close> stores a fresh room at version 1. At \<open>2 ^ 53\<close> the addition of
  doubles returns \<open>2 ^ 53\<close> again, so the bound is needed.
\<close>

theorem writes_increment_version:
  "(updateWithLock u n sm w = (Some r, sm', w') \<and> (\<forall>x. version (u x) = version x)
        \<and> stored w = Some room \<and> version room < 2 ^ 53 \<longrightarrow>
      version r = version room + 1 \<and> stored w' = Some r \<and> lastVersion sm' = version r)
   \<and> version (readyUpdater me b x) = version x
   \<and> version (onlineUpdater me b x) = version x
   \<and> version (startGameUpdater x) = version x
   \<and> version (gameStateUpdater g x) = version x
   \<and> version (endGameUpdater x) = version x
   \<and> (joinRoom a m w = (Some r, m', w') \<and> stored w = Some room
        \<and> find (\<lambda>p. player_id p = this_playerId m) (players room) = None
        \<and> version room < 2 ^ 53 \<longrightarrow>
      version r = version room + 1 \<and> stored w' = Some r)
   \<and> (stored w = Some room \<and> sync m \<noteq> None \<and> storage m \<and> roomId m \<noteq> None
        \<and> filter (\<lambda>p. player_id p \<noteq> this_playerId m) (players room) \<noteq> []
        \<and> leadingFailures (saveOutcomes w) = 0 \<and> version room < 2 ^ 53 \<longrightarrow>
      map_option version (stored (snd (leaveRoom m w))) = Some (version room + 1))
   \<and> (createRoom a m w = (Some r, m', w') \<longrightarrow> version r = 1 \<and> stored w' = Some r)
   \<and> addOne (2 ^ 53) = 2 ^ 53"
proof -
  have locked: "updateWithLock u n sm w = (Some r, sm', w') \<and> (\<forall>x. version (u x) = version x)
        \<and> stored w = Some room \<and> version room < 2 ^ 53
      \<longrightarrow> version r = version room + 1 \<and> stored w' = Some r \<and> lastVersion sm' = version r"
  proof
    assume that: "updateWithLock u n sm w = (Some r, sm', w') \<and> (\<forall>x. version (u x) = version x)
        \<and> stored w = Some room \<and> version room < 2 ^ 53"
    from that updateWithLock_Some[of u n sm w r sm' w'] obtain room' t where
      "stored w = Some room'" "r = u (bumped room' t)" "stored w' = Some r"
      "lastVersion sm' = version r" by blast
    moreover from this that have "room' = room" by simp
    moreover have "version (u (bumped room t)) = version room + 1"
      using that by (simp add: bumped_def addOne_below)
    ultimately show "version r = version room + 1 \<and> stored w' = Some r
        \<and> lastVersion sm' = version r" by simp
  qed
  have join: "joinRoom a m w = (Some r, m', w') \<and> stored w = Some room
        \<and> find (\<lambda>p. player_id p = this_playerId m) (players room) = None
        \<and> version room < 2 ^ 53
      \<longrightarrow> version r = version room + 1 \<and> stored w' = Some r"
  proof (intro impI, elim conjE)
    assume a: "joinRoom a m w = (Some r, m', w')" "stored w = Some room"
      "find (\<lambda>p. player_id p = this_playerId m) (players room) = None"
      and b: "version room < 2 ^ 53"
    show "version r = version room + 1 \<and> stored w' = Some r"
      using joinRoom_version[OF a] addOne_below[OF b] by simp
  qed
  have leave: "stored w = Some room \<and> sync m \<noteq> None \<and> storage m \<and> roomId m \<noteq> None
        \<and> filter (\<lambda>p. player_id p \<noteq> this_playerId m) (players room) \<noteq> []
        \<and> leadingFailures (saveOutcomes w) = 0 \<and> version room < 2 ^ 53
      \<longrightarrow> map_option version (stored (snd (leaveRoom m w))) = Some (version room + 1)"
  proof (intro impI, elim conjE)
    assume a: "stored w = Some room" "sync m \<noteq> None" "storage m" "roomId m \<noteq> None"
      "filter (\<lambda>p. player_id p \<noteq> this_playerId m) (players room) \<noteq> []"
      "leadingFailures (saveOutcomes w) = 0" and b: "version room < 2 ^ 53"
    show "map_option version (stored (snd (leaveRoom m w))) = Some (version room + 1)"
      using leaveRoom_version[OF a] addOne_below[OF b] by simp
  qed
  have create: "createRoom a m w = (Some r, m', w') \<longrightarrow> version r = 1 \<and> stored w' = Some r"
    using createRoom_version[of a m w r m' w'] by simp
  show ?thesis
    apply (insert locked join leave create)
    apply (intro conjI)
    apply (assumption | rule updaters_keep_version addOne_at_limit)+
    done
qed

theorem writes_increment_version_witness:
  "map_option version (stored lobbyWorld) = Some 1
   \<and> map_option version
        (fst (updateWithLock (readyUpdater ''B'' True) 3 newSyncManager lobbyWorld)) = Some 2
   \<and> map_option version (fst roomCreated) = Some 1
   \<and> map_option version (fst bJoined) = Some 2
   \<and> map_option version (stored (snd (snd cJoined))) = Some 3
   \<and> map_option version (stored (snd aLeft)) = Some 4"
proof -
  let ?X = "updateWithLock (readyUpdater ''B'' True) 3 newSyncManager lobbyWorld"
  let ?R1 = "mkRoom 1 Waiting ''A'' [mkMember ''A'' True True]"
  let ?R3 = "mkRoom 3 Waiting ''A''
      [mkMember ''A'' True True, mkMember ''B'' False False, mkMember ''C'' False False]"
  have lw: "stored lobbyWorld = Some lobby" by (simp add: lobbyWorld_def)
  have lv: "version lobby = 1" by (simp add: lobby_def mkRoom_def)
  \<comment> \<open>the locked update\<close>
  have "fst ?X \<noteq> None" by code_simp
  then obtain r where r: "fst ?X = Some r" by auto
  then have X: "?X = (Some r, fst (snd ?X), snd (snd ?X))" by (metis prod.collapse)
  have keep: "\<forall>x. version (readyUpdater ''B'' True x) = version x"
    using writes_increment_version[THEN conjunct2, THEN conjunct1] by blast
  have h1: "?X = (Some r, fst (snd ?X), snd (snd ?X))
      \<and> (\<forall>x. version (readyUpdater ''B'' True x) = version x)
      \<and> stored lobbyWorld = Some lobby \<and> version lobby < 2 ^ 53"
    using X keep lw lv by simp
  from writes_increment_version[THEN conjunct1, rule_format, OF h1] lv
  have w1: "map_option version (fst ?X) = Some 2" by (simp add: r)
  \<comment> \<open>creating\<close>
  have "fst roomCreated \<noteq> None" by code_simp
  then obtain r1 where r1: "fst roomCreated = Some r1" by auto
  then have C: "createRoom (Some ''A'') (initManager ''A'') emptyWorld
      = (Some r1, fst (snd roomCreated), snd (snd roomCreated))"
    unfolding roomCreated_def by (metis prod.collapse)
  from writes_increment_version[THEN conjunct2, THEN conjunct2, THEN conjunct2,
      THEN conjunct2, THEN conjunct2, THEN conjunct2, THEN conjunct2, THEN conjunct2,
      THEN conjunct1, rule_format, OF C]
  have w4: "map_option version (fst roomCreated) = Some 1" by (simp add: r1)
  \<comment> \<open>joining\<close>
  have s1: "stored (snd (snd roomCreated)) = Some ?R1" by code_simp
  have "fst bJoined \<noteq> None" by code_simp
  then obtain r2 where r2: "fst bJoined = Some r2" by auto
  then have J: "joinRoom (Some ''B'') (initManager ''B'') (snd (snd roomCreated))
      = (Some r2, fst (snd bJoined), snd (snd bJoined))"
    unfolding bJoined_def by (metis prod.collapse)
  have nf: "find (\<lambda>p. player_id p = this_playerId (initManager ''B'')) (players ?R1) = None"
    by (simp add: initManager_def mkRoom_def mkMember_def)
  have h2: "joinRoom (Some ''B'') (initManager ''B'') (snd (snd roomCreated))
      = (Some r2, fst (snd bJoined), snd (snd bJoined))
      \<and> stored (snd (snd roomCreated)) = Some ?R1
      \<and> find (\<lambda>p. player_id p = this_playerId (initManager ''B'')) (players ?R1) = None
      \<and> version ?R1 < 2 ^ 53"
    using J s1 nf by (simp add: mkRoom_def)
  from writes_increment_version[THEN conjunct2, THEN conjunct2, THEN conjunct2,
      THEN conjunct2, THEN conjunct2, THEN conjunct2, THEN conjunct1, rule_format, OF h2]
  have w2: "map_option version (fst bJoined) = Some 2" by (simp add: r2 mkRoom_def)
  \<comment> \<open>leaving\<close>
  have s3: "stored (snd (snd cJoined)) = Some ?R3" by code_simp
  have m: "sync (fst (snd roomCreated)) \<noteq> None" "storage (fst (snd roomCreated))"
    "roomId (fst (snd roomCreated)) \<noteq> None" "this_playerId (fst (snd roomCreated)) = ''A''"
    "leadingFailures (saveOutcomes (snd (snd cJoined))) = 0"
    by code_simp+
  have rest: "filter (\<lambda>p. player_id p \<noteq> this_playerId (fst (snd roomCreated)))
      (players ?R3) \<noteq> []"
    by (simp add: m(4) mkRoom_def mkMember_def)
  have h3: "stored (snd (snd cJoined)) = Some ?R3
    \<and> sync (fst (snd roomCreated)) \<noteq> None \<and> storage (fst (snd roomCreated))
    \<and> roomId (fst (snd roomCreated)) \<noteq> None
    \<and> filter (\<lambda>p. player_id p \<noteq> this_playerId (fst (snd roomCreated))) (players ?R3) \<noteq> []
    \<and> leadingFailures (saveOutcomes (snd (snd cJoined))) = 0
    \<and> version ?R3 < 2 ^ 53"
    using s3 m(1,2,3,5) rest by (simp add: mkRoom_def)
  from writes_increment_version[THEN conjunct2, THEN conjunct2, THEN conjunct2,
      THEN conjunct2, THEN conjunct2, THEN conjunct2, THEN conjunct2, THEN conjunct1,
      rule_format, OF h3]
  have w3: "map_option version (stored (snd aLeft)) = Some 4"
    by (simp add: aLeft_def mkRoom_def)
  show ?thesis using w1 w2 w3 w4 lw lv s3 by (simp add: mkRoom_def)
qed

subsection \<open>Starting the game\<close>

lemma forwarded_same: "forwarded sm sm = []"
  by (simp add: forwarded_def split: option.splits)

lemma startGame_failed_write:
  assumes "sync m = Some sm" and "this_isHost m"
    and "stored w = None \<or> 3 \<le> leadingFailures (saveOutcomes w)"
  shows "fst (startGame m w) = False
     \<and> called (fst (snd (startGame m w))) = called m @ [OnError MsgNotAllReady]
     \<and> stored (snd (snd (startGame m w))) = stored w"
proof -
  have "\<not> leadingFailures (saveOutcomes w) < 3 \<or> stored w = None" using assms(3) by auto
  from updateWithLock_failure[OF this, of startGameUpdater sm] obtain w' where
    "updateWithLock startGameUpdater 3 sm w = (None, sm, w')" "stored w' = stored w" by blast
  then show ?thesis
    using assms(1,2) by (simp add: startGame_def emit_def synced_def forwarded_same)
qed

text \<open>
  Claim C4, run on the code. In \<open>readyLobby\<close> every player is ready. When the three
  writes of the locked update fail, the host's \<open>startGame\<close> returns false and passes
  the not-all-ready message to \<open>onError\<close>, and the room stays as stored: the storage
  failure is reported as a refusal for unready players. The refusal proper, in the lobby
  where \<open>B\<close> is not ready, gives the same result and the same message, after the
  observer has passed on the room written again with version 2. A failed write in
  \<open>createRoom\<close> and in \<open>joinRoom\<close> has a message of its own. With everybody ready
  and the store working, \<open>startGame\<close> returns true and the room is stored as playing;
  the callbacks see the room and \<open>onGameStart\<close> twice, once from the observer and
  once from \<open>startGame\<close>. On a room that is already playing, with \<open>B\<close> not ready,
  \<open>startGame\<close> returns true as well.
\<close>

theorem startGame_reports_failed_write_as_unready:
  "list_all isReady (players readyLobby)
   \<and> stored readyDownWorld = Some readyLobby
   \<and> saveOutcomes readyDownWorld = [False, False, False]
   \<and> fst (startGame hostManager readyDownWorld) = False
   \<and> called (fst (snd (startGame hostManager readyDownWorld))) = [OnError MsgNotAllReady]
   \<and> stored (snd (snd (startGame hostManager readyDownWorld))) = Some readyLobby
   \<and> fst (startGame hostManager lobbyWorld) = False
   \<and> called (fst (snd (startGame hostManager lobbyWorld))) =
       [OnRoomUpdate (lobby\<lparr>version := 2, updatedAt := 7\<rparr>), OnError MsgNotAllReady]
   \<and> fst createFails = None
   \<and> called (fst (snd createFails)) = [OnError MsgCreateFailed]
   \<and> fst joinFails = None
   \<and> called (fst (snd joinFails)) = [OnError MsgJoinFailed]
   \<and> fst (startGame hostManager readyWorld) = True
   \<and> stored (snd (snd (startGame hostManager readyWorld))) =
       Some (readyLobby\<lparr>version := 2, status := Playing, updatedAt := 7\<rparr>)
   \<and> called (fst (snd (startGame hostManager readyWorld))) =
       [OnRoomUpdate (readyLobby\<lparr>version := 2, status := Playing, updatedAt := 7\<rparr>),
        OnGameStart, OnGameStart]
   \<and> stored playingWorld =
       Some (mkRoom 3 Playing ''A'' [mkMember ''A'' True True, mkMember ''B'' False False])
   \<and> fst (startGame hostManager playingWorld) = True"
  by code_simp

subsection \<open>Host hand-over and the manager's host flag\<close>

text \<open>
  Claim C3, run on the code. After \<open>A\<close> (creator and host) has left, the stored room
  has \<open>B\<close> as its one host: the hand-over and the removal are one write. But the
  manager of \<open>B\<close> still holds \<open>isHost = false\<close>, also after its sync loop has
  delivered that room, so when \<open>B\<close> leaves next, \<open>leaveRoom\<close> hands nothing over:
  the stored room keeps \<open>hostId = B\<close>, its only member \<open>C\<close> is not flagged as host,
  and the host invariant is broken.
\<close>

theorem leaveRoom_stale_flag_stores_hostless_room:
  "stored (snd aLeft) =
     Some (mkRoom 4 Waiting ''B'' [mkMember ''B'' True False, mkMember ''C'' False False])
   \<and> hostInvariant (mkRoom 4 Waiting ''B'' [mkMember ''B'' True False, mkMember ''C'' False False])
   \<and> this_playerId (fst bTicked) = ''B''
   \<and> this_isHost (fst bTicked) = False
   \<and> stored (snd bLeft) = Some (mkRoom 5 Waiting ''B'' [mkMember ''C'' False False])
   \<and> filter isHost (players (mkRoom 5 Waiting ''B'' [mkMember ''C'' False False])) = []
   \<and> \<not> hostInvariant (mkRoom 5 Waiting ''B'' [mkMember ''C'' False False])"
  by code_simp

text \<open>
  Claim C8, run on the code. After \<open>A\<close> has left, the store names \<open>B\<close> as host and
  the sync loop of \<open>B\<close> has passed that room to its observer, so that \<open>isHostAtom\<close>
  holds for \<open>B\<close>. The manager of \<open>B\<close> answers from its own flag, which no sync tick
  updates: \<open>getIsHost\<close> is false, and \<open>startGame\<close> is refused with the host-only
  message and writes nothing.
\<close>

theorem new_host_refused_after_transfer:
  "stored (snd bTicked) =
     Some (mkRoom 4 Waiting ''B'' [mkMember ''B'' True False, mkMember ''C'' False False])
   \<and> map_option notified (sync (fst bTicked)) =
     Some [mkRoom 4 Waiting ''B'' [mkMember ''B'' True False, mkMember ''C'' False False]]
   \<and> isHostAtom (stored (snd bTicked)) (this_playerId (fst bTicked)) = True
   \<and> getIsHost (fst bTicked) = False
   \<and> fst bStarts = False
   \<and> called (fst (snd bStarts)) = called (fst bTicked) @ [OnError MsgHostOnly]
   \<and> stored (snd (snd bStarts)) = stored (snd bTicked)"
  by code_simp

subsection \<open>Stopping the sync loop\<close>

text \<open>
  Claim C9, run on the code. \<open>stop\<close> clears the pending timeout, and that is all it
  does. Called after \<open>start\<close> while the first poll still awaits its fetch, it finds no
  timeout to clear; when the fetch settles, the poll calls the observer, sets a new
  timeout, and that timeout starts the next poll: polling goes on after \<open>stop\<close> has
  returned. Called between two polls, \<open>stop\<close> does end the loop.
\<close>

theorem stop_during_fetch_keeps_polling:
  "polling = start Waiting newSyncManager
   \<and> awaiting polling = [Waiting]
   \<and> timers (sync_run polling [EvStop]) = []
   \<and> notified (sync_run polling [EvStop, EvFetch (Fetched (Some lobby))]) = [lobby]
   \<and> timers (sync_run polling [EvStop, EvFetch (Fetched (Some lobby))]) = [(1, Waiting, 1000)]
   \<and> awaiting (sync_run polling [EvStop, EvFetch (Fetched (Some lobby)), EvTimer 1]) = [Waiting]
   \<and> timers (sync_run polling [EvFetch (Fetched (Some lobby)), EvStop]) = []
   \<and> awaiting (sync_run polling [EvFetch (Fetched (Some lobby)), EvStop]) = []"
  by code_simp

end
